theory Spec2Isabelle
  imports Main "HOL-Library.AList" "HOL-Library.Sublist"
begin

section \<open>The project tree\<close>

text \<open>
  The script works on an \<open>afero.Fs\<close>. The file system is a tree: a node is a file with its
  bytes or a directory with its named children, in listing order. A path is the list of its
  components, so \<open>filepath.Join(parent, name)\<close> is \<open>parent @ [name]\<close> for a name that is a
  single component (the names \<open>ReadDir\<close> returns are; the target database name is taken
  as one).
\<close>

type_synonym path = "string list"

datatype node = File string | Dir "(string \<times> node) list"

fun IsDir :: "node \<Rightarrow> bool" where
  "IsDir (Dir es) = True"
| "IsDir (File c) = False"

fun lookup :: "node \<Rightarrow> path \<Rightarrow> node option" where
  "lookup n [] = Some n"
| "lookup (File c) (x # p) = None"
| "lookup (Dir es) (x # p) = (case map_of es x of None \<Rightarrow> None | Some c \<Rightarrow> lookup c p)"

text \<open>
  \<open>put p new t\<close> sets the node at path \<open>p\<close> to \<open>new\<close>; the last component is created when
  it is absent, every other component has to be an existing directory.
\<close>

fun put :: "path \<Rightarrow> node \<Rightarrow> node \<Rightarrow> node option" where
  "put [] new n = Some new"
| "put (x # p) new (File c) = None"
| "put (x # p) new (Dir es) =
     (if p = [] then Some (Dir (AList.update x new es))
      else case map_of es x of
             None \<Rightarrow> None
           | Some c \<Rightarrow> (case put p new c of
                          None \<Rightarrow> None
                        | Some c' \<Rightarrow> Some (Dir (AList.update x c' es))))"

text \<open>\<open>unlink p t\<close> removes the node at \<open>p\<close> with everything below it; a missing path is left as it is.\<close>

fun unlink :: "path \<Rightarrow> node \<Rightarrow> node" where
  "unlink [] n = n"
| "unlink (x # p) (File c) = File c"
| "unlink (x # p) (Dir es) =
     (if p = [] then Dir (AList.delete x es)
      else case map_of es x of
             None \<Rightarrow> Dir es
           | Some c \<Rightarrow> Dir (AList.update x (unlink p c) es))"

fun path_string :: "path \<Rightarrow> string" where
  "path_string [] = []"
| "path_string (x # p) = CHR ''/'' # x @ path_string p"

section \<open>Collaborator calls, errors and the state of the world\<close>

text \<open>
  Every call the script makes on a collaborator (the file system, the prompts, the
  metadata API, the state stores, the config writer) is one \<open>op\<close>, with its arguments.
  A fault plan is the set of calls that fail; the world is the state the calls act on,
  together with the list of the calls made so far, each with its outcome.
\<close>

datatype ConfigVersion = V1 | V2 | V3

fun version_num :: "ConfigVersion \<Rightarrow> nat" where
  "version_num V1 = 1"
| "version_num V2 = 2"
| "version_num V3 = 3"

record CLICatalogState =
  Migrations :: "(string \<times> (int \<times> bool) list) list"
  Settings :: "(string \<times> string) list"
  IsStateCopyCompleted :: bool

datatype op =
    OpStat path
  | OpReadDir path
  | OpMkdir path
  | OpRemoveAll path
  | OpCopyDir path path
  | OpCopyFile path path
  | OpGetInconsistentMetadata
  | OpYesNoPrompt
  | OpGetSources
  | OpSelectPrompt "string list"
  | OpPrepareMigrationsSrc string
  | OpPrepareMigrationsDst string
  | OpCopyMigrationState string string
  | OpPrepareSettingsSrc
  | OpPrepareSettingsDst
  | OpCopySettingsState
  | OpCatalogGet
  | OpCatalogSet CLICatalogState
  | OpWriteConfig ConfigVersion
  | OpExportMetadata
  | OpWriteMetadata path "(string \<times> string) list"

datatype error =
    Fault op
  | ErrNotExist path
  | ErrExist path
  | ErrNotDir path
  | ErrIsDir path
  | StoreUnavailable
  | StoreIOError
  | DuplicateStateConflict
  | Msg string
  | Wrap error string

record state =
  fs :: node
  config_version :: ConfigVersion
  hdb_migrations :: "(int \<times> bool) list"
  hdb_settings :: "(string \<times> string) list"
  catalog :: CLICatalogState

record world =
  st :: state
  calls :: "(op \<times> error option) list"

record env =
  faults :: "op set"
  HasMetadataV3 :: bool
  ServerVersion :: string
  IsConsistent :: bool
  YesNoAnswer :: string
  Sources :: "string list"
  SelectAnswer :: string
  ServerMetadata :: "(string \<times> string) list"

record UpdateProjectV3Opts =
  MigrationsAbsDirectoryPath :: path
  SeedsAbsDirectoryPath :: path
  MetadataDir :: path
  TargetDatabase :: string
  Force :: bool
  MoveStateOnly :: bool

subsection \<open>What a call does to the state\<close>

text \<open>The calls of \<open>afero.Fs\<close> that write: \<open>Mkdir\<close> and \<open>RemoveAll\<close>.\<close>

definition mkdir :: "path \<Rightarrow> state \<Rightarrow> error + state" where
  "mkdir p s =
     (case lookup (fs s) p of
        Some n \<Rightarrow> Inl (ErrExist p)
      | None \<Rightarrow> (case put p (Dir []) (fs s) of
                   None \<Rightarrow> Inl (ErrNotExist p)
                 | Some t \<Rightarrow> Inr (s\<lparr>fs := t\<rparr>)))"

definition removeAll :: "path \<Rightarrow> state \<Rightarrow> error + state" where
  "removeAll p s = Inr (s\<lparr>fs := unlink p (fs s)\<rparr>)"

text \<open>
  Modelled from the spec: \<open>util.CopyFileAfero\<close> and \<open>util.CopyDirAfero\<close> are not among the
  sources. Section 4.4 says a matched migration is copied "recursively if a directory,
  else as a single file" into the target subtree. A file copy needs a file at the source
  and writes its bytes at the destination, which must not be a directory and whose parent
  must be one. A directory copy needs a directory at the source and puts a copy of the whole
  subtree at the destination, which must not exist yet and whose parent must be a directory.
\<close>

definition copyFile :: "path \<Rightarrow> path \<Rightarrow> state \<Rightarrow> error + state" where
  "copyFile src dst s =
     (case lookup (fs s) src of
        None \<Rightarrow> Inl (ErrNotExist src)
      | Some (Dir es) \<Rightarrow> Inl (ErrIsDir src)
      | Some (File c) \<Rightarrow>
          (case lookup (fs s) dst of
             Some (Dir ds) \<Rightarrow> Inl (ErrIsDir dst)
           | _ \<Rightarrow> (case put dst (File c) (fs s) of
                    None \<Rightarrow> Inl (ErrNotExist dst)
                  | Some t \<Rightarrow> Inr (s\<lparr>fs := t\<rparr>))))"

definition copyDir :: "path \<Rightarrow> path \<Rightarrow> state \<Rightarrow> error + state" where
  "copyDir src dst s =
     (case lookup (fs s) src of
        None \<Rightarrow> Inl (ErrNotExist src)
      | Some (File c) \<Rightarrow> Inl (ErrNotDir src)
      | Some (Dir es) \<Rightarrow>
          (case lookup (fs s) dst of
             Some n \<Rightarrow> Inl (ErrExist dst)
           | None \<Rightarrow> (case put dst (Dir es) (fs s) of
                        None \<Rightarrow> Inl (ErrNotExist dst)
                      | Some t \<Rightarrow> Inr (s\<lparr>fs := t\<rparr>))))"

text \<open>
  Modelled from the spec: the metadata handler (\<open>metadataobject\<close>) is not among the sources.
  Section 4.5 says the resync performs "a full overwrite (never a merge) of local files":
  the metadata directory becomes the exported files.
\<close>

definition writeMetadata :: "path \<Rightarrow> (string \<times> string) list \<Rightarrow> state \<Rightarrow> error + state" where
  "writeMetadata dir files s =
     (case put dir (Dir (map (\<lambda>(name, bytes). (name, File bytes)) files)) (fs s) of
        None \<Rightarrow> Inl (ErrNotExist dir)
      | Some t \<Rightarrow> Inr (s\<lparr>fs := t\<rparr>))"

text \<open>
  Modelled from the spec: the \<open>statestore\<close> packages are not among the sources. Section 4.2:
  preparing a store checks that it can be reached and changes nothing. Section 4.3, step 3:
  every migration record of the source is copied under the destination name, "a rename,
  not a merge: if dest already holds records under that name, fail with
  DuplicateStateConflict and modify nothing". Step 4: every settings entry is written to
  the catalog. The catalog is read and written as a whole.
\<close>

definition copyMigrationState :: "string \<Rightarrow> string \<Rightarrow> state \<Rightarrow> error + state" where
  "copyMigrationState srcdatabase destdatabase s =
     (case map_of (Migrations (catalog s)) destdatabase of
        Some (r # rs) \<Rightarrow> Inl DuplicateStateConflict
      | _ \<Rightarrow> Inr (s\<lparr>catalog := (catalog s)
                  \<lparr>Migrations := AList.update destdatabase (hdb_migrations s) (Migrations (catalog s))\<rparr>\<rparr>))"

definition copySettingsState :: "state \<Rightarrow> error + state" where
  "copySettingsState s =
     Inr (s\<lparr>catalog := (catalog s)
             \<lparr>Settings := AList.updates (map fst (hdb_settings s)) (map snd (hdb_settings s))
                            (Settings (catalog s))\<rparr>\<rparr>)"

text \<open>The calls that only read, and the preparation of a store, leave the state as it is.\<close>

fun effect :: "op \<Rightarrow> state \<Rightarrow> error + state" where
  "effect (OpMkdir p) s = mkdir p s"
| "effect (OpRemoveAll p) s = removeAll p s"
| "effect (OpCopyFile src dst) s = copyFile src dst s"
| "effect (OpCopyDir src dst) s = copyDir src dst s"
| "effect (OpWriteMetadata dir files) s = writeMetadata dir files s"
| "effect (OpCopyMigrationState a b) s = copyMigrationState a b s"
| "effect OpCopySettingsState s = copySettingsState s"
| "effect (OpCatalogSet c) s = Inr (s\<lparr>catalog := c\<rparr>)"
| "effect (OpWriteConfig v) s = Inr (s\<lparr>config_version := v\<rparr>)"
| "effect c s = Inr s"

text \<open>
  Modelled from the spec: the error a failed store call surfaces (section 4.2: a failed
  preparation is \<open>StoreUnavailable\<close>, a failed get or set is \<open>StoreIOError\<close>). Any other
  injected failure is \<open>Fault\<close>.
\<close>

fun fault_error :: "op \<Rightarrow> error" where
  "fault_error (OpPrepareMigrationsSrc s) = StoreUnavailable"
| "fault_error (OpPrepareMigrationsDst s) = StoreUnavailable"
| "fault_error OpPrepareSettingsSrc = StoreUnavailable"
| "fault_error OpPrepareSettingsDst = StoreUnavailable"
| "fault_error (OpCopyMigrationState s d) = StoreIOError"
| "fault_error OpCopySettingsState = StoreIOError"
| "fault_error OpCatalogGet = StoreIOError"
| "fault_error (OpCatalogSet c) = StoreIOError"
| "fault_error c = Fault c"

subsection \<open>Making a call\<close>

text \<open>
  A call that returns only an error (\<open>call\<close>) and a call that returns a value or an error
  (\<open>callv\<close>, for the calls that only read). A call the fault plan names fails and changes
  nothing. Either way the call and its outcome are appended to \<open>calls\<close>.
\<close>

definition logged :: "op \<Rightarrow> error option \<Rightarrow> world \<Rightarrow> world" where
  "logged c r w = w\<lparr>calls := calls w @ [(c, r)]\<rparr>"

definition call :: "env \<Rightarrow> op \<Rightarrow> world \<Rightarrow> error option \<times> world" where
  "call env c w =
     (if c \<in> faults env then (Some (fault_error c), logged c (Some (fault_error c)) w)
      else case effect c (st w) of
             Inl e \<Rightarrow> (Some e, logged c (Some e) w)
           | Inr s' \<Rightarrow> (None, logged c None (w\<lparr>st := s'\<rparr>)))"

definition callv :: "env \<Rightarrow> op \<Rightarrow> (state \<Rightarrow> error + 'a) \<Rightarrow> world \<Rightarrow> (error + 'a) \<times> world" where
  "callv env c f w =
     (if c \<in> faults env then (Inl (fault_error c), logged c (Some (fault_error c)) w)
      else case f (st w) of
             Inl e \<Rightarrow> (Inl e, logged c (Some e) w)
           | Inr v \<Rightarrow> (Inr v, logged c None w))"

definition Stat :: "env \<Rightarrow> path \<Rightarrow> world \<Rightarrow> (error + bool) \<times> world" where
  "Stat env p =
     callv env (OpStat p)
       (\<lambda>s. case lookup (fs s) p of None \<Rightarrow> Inl (ErrNotExist p) | Some n \<Rightarrow> Inr (IsDir n))"

definition ReadDir :: "env \<Rightarrow> path \<Rightarrow> world \<Rightarrow> (error + (string \<times> bool) list) \<times> world" where
  "ReadDir env p =
     callv env (OpReadDir p)
       (\<lambda>s. case lookup (fs s) p of
              None \<Rightarrow> Inl (ErrNotExist p)
            | Some (File c) \<Rightarrow> Inl (ErrNotDir p)
            | Some (Dir es) \<Rightarrow> Inr (map (\<lambda>(name, n). (name, IsDir n)) es))"

definition Mkdir :: "env \<Rightarrow> path \<Rightarrow> world \<Rightarrow> error option \<times> world" where
  "Mkdir env p = call env (OpMkdir p)"

definition RemoveAll :: "env \<Rightarrow> path \<Rightarrow> world \<Rightarrow> error option \<times> world" where
  "RemoveAll env p = call env (OpRemoveAll p)"

definition CopyFileAfero :: "env \<Rightarrow> path \<Rightarrow> path \<Rightarrow> world \<Rightarrow> error option \<times> world" where
  "CopyFileAfero env src dst = call env (OpCopyFile src dst)"

definition CopyDirAfero :: "env \<Rightarrow> path \<Rightarrow> path \<Rightarrow> world \<Rightarrow> error option \<times> world" where
  "CopyDirAfero env src dst = call env (OpCopyDir src dst)"

definition GetInconsistentMetadata :: "env \<Rightarrow> world \<Rightarrow> (error + bool) \<times> world" where
  "GetInconsistentMetadata env = callv env OpGetInconsistentMetadata (\<lambda>s. Inr (IsConsistent env))"

definition GetYesNoPrompt :: "env \<Rightarrow> string \<Rightarrow> world \<Rightarrow> (error + string) \<times> world" where
  "GetYesNoPrompt env question = callv env OpYesNoPrompt (\<lambda>s. Inr (YesNoAnswer env))"

definition GetSources :: "env \<Rightarrow> world \<Rightarrow> (error + string list) \<times> world" where
  "GetSources env = callv env OpGetSources (\<lambda>s. Inr (Sources env))"

definition GetSelectPrompt :: "env \<Rightarrow> string \<Rightarrow> string list \<Rightarrow> world \<Rightarrow> (error + string) \<times> world" where
  "GetSelectPrompt env question options = callv env (OpSelectPrompt options) (\<lambda>s. Inr (SelectAnswer env))"

definition WriteConfig :: "env \<Rightarrow> ConfigVersion \<Rightarrow> world \<Rightarrow> error option \<times> world" where
  "WriteConfig env v = call env (OpWriteConfig v)"

definition ExportMetadata :: "env \<Rightarrow> world \<Rightarrow> (error + (string \<times> string) list) \<times> world" where
  "ExportMetadata env = callv env OpExportMetadata (\<lambda>s. Inr (ServerMetadata env))"

definition WriteMetadata :: "env \<Rightarrow> path \<Rightarrow> (string \<times> string) list \<Rightarrow> world \<Rightarrow> error option \<times> world" where
  "WriteMetadata env dir files = call env (OpWriteMetadata dir files)"

definition PrepareMigrationsStateStoreHdbTable :: "env \<Rightarrow> string \<Rightarrow> world \<Rightarrow> error option \<times> world" where
  "PrepareMigrationsStateStoreHdbTable env database = call env (OpPrepareMigrationsSrc database)"

definition PrepareMigrationsStateStoreCatalog :: "env \<Rightarrow> string \<Rightarrow> world \<Rightarrow> error option \<times> world" where
  "PrepareMigrationsStateStoreCatalog env database = call env (OpPrepareMigrationsDst database)"

definition CopyMigrationState :: "env \<Rightarrow> string \<Rightarrow> string \<Rightarrow> world \<Rightarrow> error option \<times> world" where
  "CopyMigrationState env srcdatabase destdatabase = call env (OpCopyMigrationState srcdatabase destdatabase)"

definition PrepareSettingsDriverHdbTable :: "env \<Rightarrow> world \<Rightarrow> error option \<times> world" where
  "PrepareSettingsDriverHdbTable env = call env OpPrepareSettingsSrc"

definition PrepareSettingsDriverCatalog :: "env \<Rightarrow> world \<Rightarrow> error option \<times> world" where
  "PrepareSettingsDriverCatalog env = call env OpPrepareSettingsDst"

definition CopySettingsState :: "env \<Rightarrow> world \<Rightarrow> error option \<times> world" where
  "CopySettingsState env = call env OpCopySettingsState"

definition CLICatalogStateGet :: "env \<Rightarrow> world \<Rightarrow> (error + CLICatalogState) \<times> world" where
  "CLICatalogStateGet env = callv env OpCatalogGet (\<lambda>s. Inr (catalog s))"

definition CLICatalogStateSet :: "env \<Rightarrow> CLICatalogState \<Rightarrow> world \<Rightarrow> error option \<times> world" where
  "CLICatalogStateSet env cliState = call env (OpCatalogSet cliState)"

section \<open>The script\<close>

subsection \<open>Helpers (lines 203 to 324)\<close>

fun removeDirectories :: "env \<Rightarrow> path \<Rightarrow> string list \<Rightarrow> world \<Rightarrow> error option \<times> world" where
  "removeDirectories env parentDirectory [] w = (None, w)"
| "removeDirectories env parentDirectory (d # dirNames) w =
     (case RemoveAll env (parentDirectory @ [d]) w of
        (Some err, w1) \<Rightarrow> (Some err, w1)
      | (None, w1) \<Rightarrow> removeDirectories env parentDirectory dirNames w1)"

text \<open>
  The result of \<open>Stat\<close> is taken without its error (\<open>f, _ := fs.Stat(...)\<close>), and an entry
  with no file info is passed over.
\<close>

fun copyMigrations :: "env \<Rightarrow> string list \<Rightarrow> path \<Rightarrow> path \<Rightarrow> world \<Rightarrow> error option \<times> world" where
  "copyMigrations env [] parentDir target w = (None, w)"
| "copyMigrations env (dir # dirs) parentDir target w =
     (case Stat env (parentDir @ [dir]) w of
        (Inl ignored, w1) \<Rightarrow> copyMigrations env dirs parentDir target w1
      | (Inr f_IsDir, w1) \<Rightarrow>
          (case (if f_IsDir then CopyDirAfero env (parentDir @ [dir]) (target @ [dir]) w1
                 else CopyFileAfero env (parentDir @ [dir]) (target @ [dir]) w1) of
             (Some err, w2) \<Rightarrow>
               (Some (Wrap err (''moving '' @ dir @ '' to '' @ path_string target)), w2)
           | (None, w2) \<Rightarrow> copyMigrations env dirs parentDir target w2))"

fun copyFiles :: "env \<Rightarrow> string list \<Rightarrow> path \<Rightarrow> path \<Rightarrow> world \<Rightarrow> error option \<times> world" where
  "copyFiles env [] parentDir target w = (None, w)"
| "copyFiles env (dir # files) parentDir target w =
     (case CopyFileAfero env (parentDir @ [dir]) (target @ [dir]) w of
        (Some err, w1) \<Rightarrow>
          (Some (Wrap err (''moving '' @ dir @ '' to '' @ path_string target)), w1)
      | (None, w1) \<Rightarrow> copyFiles env files parentDir target w1)"

text \<open>
  The pattern is \<open>^([0-9]{13})_(.*)$\<close>: thirteen ASCII digits, an underscore, and then any
  characters but a line feed (in Go's syntax \<open>.\<close> does not match one, and \<open>$\<close> is the end
  of the text). The pattern is a constant that compiles, so the error is always nil.
\<close>

definition Base :: "string \<Rightarrow> string" where
  "Base name = (if name = [] then ''.'' else name)"

definition isHasuraCLIGeneratedMigration :: "string \<Rightarrow> error + bool" where
  "isHasuraCLIGeneratedMigration dirPath =
     (let name = Base dirPath in
      Inr (14 \<le> length name
           \<and> (\<forall>c \<in> set (take 13 name). c \<in> set ''0123456789'')
           \<and> name ! 13 = CHR ''_''
           \<and> CHR 0x0A \<notin> set (drop 14 name)))"

fun matching_loop :: "(string \<Rightarrow> error + bool) \<Rightarrow> (string \<times> bool) list \<Rightarrow> string list \<Rightarrow> error + string list" where
  "matching_loop matcher [] migs = Inr migs"
| "matching_loop matcher (info # dirs) migs =
     (case matcher (fst info) of
        Inl err \<Rightarrow> Inl err
      | Inr ok \<Rightarrow> if \<not> ok then matching_loop matcher dirs migs
                  else matching_loop matcher dirs (migs @ [fst info]))"

definition getMatchingFilesAndDirs ::
  "env \<Rightarrow> path \<Rightarrow> (string \<Rightarrow> error + bool) \<Rightarrow> world \<Rightarrow> (error + string list) \<times> world" where
  "getMatchingFilesAndDirs env parentDir matcher w =
     (case ReadDir env parentDir w of
        (Inl err, w1) \<Rightarrow> (Inl err, w1)
      | (Inr dirs, w1) \<Rightarrow> (matching_loop matcher dirs [], w1))"

definition getMigrationDirectoryNames :: "env \<Rightarrow> path \<Rightarrow> world \<Rightarrow> (error + string list) \<times> world" where
  "getMigrationDirectoryNames env rootMigrationsDir =
     getMatchingFilesAndDirs env rootMigrationsDir isHasuraCLIGeneratedMigration"

definition getSeedFiles :: "env \<Rightarrow> path \<Rightarrow> world \<Rightarrow> (error + string list) \<times> world" where
  "getSeedFiles env rootSeedDir w =
     (case ReadDir env rootSeedDir w of
        (Inl err, w1) \<Rightarrow> (Inl err, w1)
      | (Inr dirs, w1) \<Rightarrow> (Inr (map fst (filter (\<lambda>info. \<not> snd info) dirs)), w1))"

definition CopyState :: "env \<Rightarrow> string \<Rightarrow> string \<Rightarrow> world \<Rightarrow> error option \<times> world" where
  "CopyState env sourceDatabase destDatabase w =
     (case PrepareMigrationsStateStoreHdbTable env sourceDatabase w of
        (Some err, w1) \<Rightarrow> (Some err, w1)
      | (None, w1) \<Rightarrow>
     (case PrepareMigrationsStateStoreCatalog env destDatabase w1 of
        (Some err, w2) \<Rightarrow> (Some err, w2)
      | (None, w2) \<Rightarrow>
     (case CopyMigrationState env sourceDatabase destDatabase w2 of
        (Some err, w3) \<Rightarrow> (Some err, w3)
      | (None, w3) \<Rightarrow>
     (case PrepareSettingsDriverHdbTable env w3 of
        (Some err, w4) \<Rightarrow> (Some err, w4)
      | (None, w4) \<Rightarrow>
     (case PrepareSettingsDriverCatalog env w4 of
        (Some err, w5) \<Rightarrow> (Some err, w5)
      | (None, w5) \<Rightarrow>
     (case CopySettingsState env w5 of
        (Some err, w6) \<Rightarrow> (Some err, w6)
      | (None, w6) \<Rightarrow>
     (case CLICatalogStateGet env w6 of
        (Inl err, w7) \<Rightarrow> (Some (Wrap err ''error while fetching catalog state''), w7)
      | (Inr cliState, w7) \<Rightarrow>
     (case CLICatalogStateSet env (cliState\<lparr>IsStateCopyCompleted := True\<rparr>) w7 of
        (Some err, w8) \<Rightarrow> (Some (Wrap err ''cannot set catalog state''), w8)
      | (None, w8) \<Rightarrow> (None, w8)))))))))"

subsection \<open>UpdateProjectV3 (lines 43 to 201)\<close>

text \<open>
  The body of \<open>UpdateProjectV3\<close> is a sequence of phases. A phase either makes the function
  return (\<open>Inl r\<close>, where \<open>r\<close> is the returned error, \<open>None\<close> for nil) or hands a value to
  the rest of the body (\<open>Inr v\<close>).
\<close>

definition andThen ::
  "(world \<Rightarrow> (error option + 'a) \<times> world) \<Rightarrow> ('a \<Rightarrow> world \<Rightarrow> (error option + 'b) \<times> world)
   \<Rightarrow> world \<Rightarrow> (error option + 'b) \<times> world" where
  "andThen m f w = (case m w of (Inl r, w1) \<Rightarrow> (Inl r, w1) | (Inr v, w1) \<Rightarrow> f v w1)"

fun fmt_strings :: "string list \<Rightarrow> string" where
  "fmt_strings [] = []"
| "fmt_strings [x] = x"
| "fmt_strings (x # y # ys) = x @ '' '' @ fmt_strings (y # ys)"

text \<open>Lines 55 to 67: the pre checks.\<close>

definition preChecks :: "UpdateProjectV3Opts \<Rightarrow> env \<Rightarrow> world \<Rightarrow> (error option + unit) \<times> world" where
  "preChecks opts env w =
     (if config_version (st w) \<noteq> V2 \<and> \<not> MoveStateOnly opts
      then (Inl (Some (Msg ''project should be using config V2 to be able to update to V3'')), w)
      else if \<not> HasMetadataV3 env
      then (Inl (Some (Msg (''unsupported server version '' @ ServerVersion env
                  @ '', config V3 is supported only on server with metadata version >= 3''))), w)
      else case GetInconsistentMetadata env w of
             (Inl err, w1) \<Rightarrow> (Inl (Some (Wrap err ''determing server metadata inconsistency'')), w1)
           | (Inr r_IsConsistent, w1) \<Rightarrow>
               if \<not> r_IsConsistent
               then (Inl (Some (Msg ''cannot continue: metadata is inconsistent on the server'')), w1)
               else (Inr (), w1))"

text \<open>Lines 74 to 82: the confirmation, unless forced.\<close>

definition confirmContinue :: "UpdateProjectV3Opts \<Rightarrow> env \<Rightarrow> world \<Rightarrow> (error option + unit) \<times> world" where
  "confirmContinue opts env w =
     (if \<not> Force opts
      then case GetYesNoPrompt env ''continue?'' w of
             (Inl err, w1) \<Rightarrow> (Inl (Some err), w1)
           | (Inr response, w1) \<Rightarrow> if response = ''n'' then (Inl None, w1) else (Inr (), w1)
      else (Inr (), w))"

text \<open>Lines 84 to 103: the connected sources and the target database.\<close>

definition selectTargetDatabase ::
  "UpdateProjectV3Opts \<Rightarrow> env \<Rightarrow> world \<Rightarrow> (error option + string list \<times> string) \<times> world" where
  "selectTargetDatabase opts env w =
     (case GetSources env w of
        (Inl err, w1) \<Rightarrow> (Inl (Some err), w1)
      | (Inr sources, w1) \<Rightarrow>
          if length (TargetDatabase opts) = 0
          then if length sources = 1 \<and> sources ! 0 = ''default''
               then (Inr (sources, sources ! 0), w1)
               else if length sources > 0
               then case GetSelectPrompt env
                           ''what database does this current migrations / seeds belong to?'' sources w1 of
                      (Inl err, w2) \<Rightarrow> (Inl (Some err), w2)
                    | (Inr targetDatabase, w2) \<Rightarrow> (Inr (sources, targetDatabase), w2)
               else (Inl (Some (Msg (''cannot determine name of database for which current migrations / seed belong to, found 0 connected databases on hasura ''
                                     @ ''['' @ fmt_strings sources @ '']''))), w1)
          else (Inr (sources, TargetDatabase opts), w1))"

text \<open>Lines 108 to 119: the state copy, and the early return when only the state is to be moved.\<close>

definition copyingState ::
  "UpdateProjectV3Opts \<Rightarrow> env \<Rightarrow> string list \<Rightarrow> string \<Rightarrow> world \<Rightarrow> (error option + unit) \<times> world" where
  "copyingState opts env sources targetDatabase w =
     (if length sources \<ge> 1
      then case CopyState env targetDatabase targetDatabase w of
             (Some err, w1) \<Rightarrow> (Inl (Some err), w1)
           | (None, w1) \<Rightarrow> if MoveStateOnly opts then (Inl None, w1) else (Inr (), w1)
      else (Inr (), w))"

text \<open>
  Lines 121 to 156: the entries to move are listed, the target directories are made and
  the entries are copied. The error of either \<open>Mkdir\<close> is wrapped and the result of the
  wrapping is dropped: neither branch returns.
\<close>

definition copyOldMigrations ::
  "UpdateProjectV3Opts \<Rightarrow> env \<Rightarrow> string \<Rightarrow> world \<Rightarrow> (error option + string list \<times> string list) \<times> world" where
  "copyOldMigrations opts env targetDatabase w =
     (case getMigrationDirectoryNames env (MigrationsAbsDirectoryPath opts) w of
        (Inl err, w1) \<Rightarrow> (Inl (Some (Wrap err ''getting list of migrations to move'')), w1)
      | (Inr migrationDirectoriesToMove, w1) \<Rightarrow>
     (case getSeedFiles env (SeedsAbsDirectoryPath opts) w1 of
        (Inl err, w2) \<Rightarrow> (Inl (Some (Wrap err ''getting list of seed files to move'')), w2)
      | (Inr seedFilesToMove, w2) \<Rightarrow>
     (let targetMigrationsDirectoryName = MigrationsAbsDirectoryPath opts @ [targetDatabase] in
      case Mkdir env targetMigrationsDirectoryName w2 of
        (dropped1, w3) \<Rightarrow>
     (let targetSeedsDirectoryName = SeedsAbsDirectoryPath opts @ [targetDatabase] in
      case Mkdir env targetSeedsDirectoryName w3 of
        (dropped2, w4) \<Rightarrow>
     (case copyMigrations env migrationDirectoriesToMove (MigrationsAbsDirectoryPath opts)
             targetMigrationsDirectoryName w4 of
        (Some err, w5) \<Rightarrow> (Inl (Some (Wrap err ''moving migrations to target database directory'')), w5)
      | (None, w5) \<Rightarrow>
     (case copyFiles env seedFilesToMove (SeedsAbsDirectoryPath opts) targetSeedsDirectoryName w5 of
        (Some err, w6) \<Rightarrow> (Inl (Some (Wrap err ''moving seeds to target database directory'')), w6)
      | (None, w6) \<Rightarrow> (Inr (migrationDirectoriesToMove, seedFilesToMove), w6)))))))"

text \<open>Lines 158 to 167: the new config file.\<close>

definition generateNewConfigFile :: "env \<Rightarrow> world \<Rightarrow> (error option + unit) \<times> world" where
  "generateNewConfigFile env w =
     (case WriteConfig env V3 w of
        (Some err, w1) \<Rightarrow> (Inl (Some err), w1)
      | (None, w1) \<Rightarrow> (Inr (), w1))"

text \<open>Lines 169 to 184: the originals and the two old metadata files are deleted.\<close>

definition deleteOldMigrationsAndSeeds ::
  "UpdateProjectV3Opts \<Rightarrow> env \<Rightarrow> string list \<Rightarrow> string list \<Rightarrow> world \<Rightarrow> (error option + unit) \<times> world" where
  "deleteOldMigrationsAndSeeds opts env migrationDirectoriesToMove seedFilesToMove w =
     (case removeDirectories env (MigrationsAbsDirectoryPath opts) migrationDirectoriesToMove w of
        (Some err, w1) \<Rightarrow> (Inl (Some (Wrap err ''removing up original migrations'')), w1)
      | (None, w1) \<Rightarrow>
     (case removeDirectories env (SeedsAbsDirectoryPath opts) seedFilesToMove w1 of
        (Some err, w2) \<Rightarrow> (Inl (Some (Wrap err ''removing up original migrations'')), w2)
      | (None, w2) \<Rightarrow>
     (case removeDirectories env (MetadataDir opts) [''functions.yaml'', ''tables.yaml''] w2 of
        (Some err, w3) \<Rightarrow> (Inl (Some err), w3)
      | (None, w3) \<Rightarrow> (Inr (), w3))))"

text \<open>Lines 186 to 200: the metadata is exported from the server and written.\<close>

definition exportMetadataFromServer ::
  "UpdateProjectV3Opts \<Rightarrow> env \<Rightarrow> world \<Rightarrow> (error option + unit) \<times> world" where
  "exportMetadataFromServer opts env w =
     (case ExportMetadata env w of
        (Inl err, w1) \<Rightarrow> (Inl (Some err), w1)
      | (Inr files, w1) \<Rightarrow>
     (case WriteMetadata env (MetadataDir opts) files w1 of
        (Some err, w2) \<Rightarrow> (Inl (Some err), w2)
      | (None, w2) \<Rightarrow> (Inl None, w2)))"

text \<open>Lines 121 to 184, the reorganization of the directories: copy, write the config, delete.\<close>

definition Reorganize ::
  "UpdateProjectV3Opts \<Rightarrow> env \<Rightarrow> string \<Rightarrow> world \<Rightarrow> (error option + unit) \<times> world" where
  "Reorganize opts env targetDatabase =
     andThen (copyOldMigrations opts env targetDatabase) (\<lambda>(migrationDirectoriesToMove, seedFilesToMove).
     andThen (generateNewConfigFile env) (\<lambda>u.
     deleteOldMigrationsAndSeeds opts env migrationDirectoriesToMove seedFilesToMove))"

definition UpdateProjectV3 :: "UpdateProjectV3Opts \<Rightarrow> env \<Rightarrow> world \<Rightarrow> error option \<times> world" where
  "UpdateProjectV3 opts env w =
     (case andThen (preChecks opts env) (\<lambda>u.
           andThen (confirmContinue opts env) (\<lambda>u.
           andThen (selectTargetDatabase opts env) (\<lambda>(sources, targetDatabase).
           andThen (copyingState opts env sources targetDatabase) (\<lambda>u.
           andThen (Reorganize opts env targetDatabase) (\<lambda>u.
           exportMetadataFromServer opts env))))) w of
        (Inl r, w') \<Rightarrow> (r, w')
      | (Inr u, w') \<Rightarrow> (None, w'))"

subsection \<open>CheckIfUpdateToConfigV3IsRequired (lines 326 to 358)\<close>

definition CheckIfUpdateToConfigV3IsRequired :: "env \<Rightarrow> world \<Rightarrow> error option \<times> world" where
  "CheckIfUpdateToConfigV3IsRequired env w =
     (if version_num (config_version (st w)) \<le> version_num V1 \<and> HasMetadataV3 env
      then (Some (Msg ''please upgrade your project to a newer version. use hasura scripts update-project-v2 to upgrade your project to config v2''), w)
      else if version_num (config_version (st w)) < version_num V3 \<and> HasMetadataV3 env
      then case GetSources env w of
             (Inl err, w1) \<Rightarrow> (Some err, w1)
           | (Inr sources, w1) \<Rightarrow>
               if length sources = 0 then (Some (Msg ''no connected databases found on hasura''), w1)
               else if length sources \<noteq> 1 then (Some (Msg ''update to config V3''), w1)
               else if length sources = 1 \<and> sources ! 0 \<noteq> ''default''
               then (Some (Msg ''update to config V3''), w1)
               else (None, w1)
      else (None, w))"

section \<open>Reading the list of calls\<close>

text \<open>
  The state after a run is the state before it with the successful calls applied in order;
  a failed call changes nothing.
\<close>

fun replay1 :: "op \<times> error option \<Rightarrow> state \<Rightarrow> state" where
  "replay1 (c, None) s = (case effect c s of Inr s' \<Rightarrow> s' | Inl e \<Rightarrow> s)"
| "replay1 (c, Some e) s = s"

definition replay :: "(op \<times> error option) list \<Rightarrow> state \<Rightarrow> state" where
  "replay es s = fold replay1 es s"

text \<open>The world after a list of calls, and the calls made between two worlds.\<close>

definition after :: "(op \<times> error option) list \<Rightarrow> world \<Rightarrow> world" where
  "after es w = \<lparr>st = replay es (st w), calls = calls w @ es\<rparr>"

definition trace :: "world \<Rightarrow> world \<Rightarrow> (op \<times> error option) list" where
  "trace w w' = drop (length (calls w)) (calls w')"


text \<open>
  The phase of \<open>UpdateProjectV3\<close> a call belongs to: the pre checks (0), the confirmation (1),
  the choice of the target (2), the state copy (3), listing, making the target directories
  and copying (4), the config file (5), the deletion (6), the metadata export (7).
\<close>

fun phase_of :: "op \<Rightarrow> nat" where
  "phase_of OpGetInconsistentMetadata = 0"
| "phase_of OpYesNoPrompt = 1"
| "phase_of OpGetSources = 2"
| "phase_of (OpSelectPrompt options) = 2"
| "phase_of (OpPrepareMigrationsSrc a) = 3"
| "phase_of (OpPrepareMigrationsDst a) = 3"
| "phase_of (OpCopyMigrationState a b) = 3"
| "phase_of OpPrepareSettingsSrc = 3"
| "phase_of OpPrepareSettingsDst = 3"
| "phase_of OpCopySettingsState = 3"
| "phase_of OpCatalogGet = 3"
| "phase_of (OpCatalogSet c) = 3"
| "phase_of (OpStat p) = 4"
| "phase_of (OpReadDir p) = 4"
| "phase_of (OpMkdir p) = 4"
| "phase_of (OpCopyDir src dst) = 4"
| "phase_of (OpCopyFile src dst) = 4"
| "phase_of (OpWriteConfig v) = 5"
| "phase_of (OpRemoveAll p) = 6"
| "phase_of OpExportMetadata = 7"
| "phase_of (OpWriteMetadata dir files) = 7"

fun is_copy :: "op \<Rightarrow> bool" where
  "is_copy (OpCopyDir src dst) = True"
| "is_copy (OpCopyFile src dst) = True"
| "is_copy c = False"

fun is_remove :: "op \<Rightarrow> bool" where
  "is_remove (OpRemoveAll p) = True"
| "is_remove c = False"

text \<open>
  The calls whose error the script does not act on: \<open>Stat\<close> in \<open>copyMigrations\<close> (line 214)
  and the two \<open>Mkdir\<close> calls (lines 138 to 146).
\<close>

fun passed_over :: "op \<Rightarrow> bool" where
  "passed_over (OpStat p) = True"
| "passed_over (OpMkdir p) = True"
| "passed_over c = False"

definition failed :: "op \<times> error option \<Rightarrow> bool" where
  "failed x \<longleftrightarrow> snd x \<noteq> None \<and> \<not> passed_over (fst x)"

text \<open>The error at the bottom of a chain of wrappings.\<close>

fun cause :: "error \<Rightarrow> error" where
  "cause (Wrap e label) = cause e"
| "cause e = e"

text \<open>
  A list of calls is in order for a returned error \<open>r\<close> when no call but the last failed,
  and a failure of the last call is the cause of \<open>r\<close>.
\<close>

definition ok_trace :: "error option \<Rightarrow> (op \<times> error option) list \<Rightarrow> bool" where
  "ok_trace r es \<longleftrightarrow>
     (\<forall>x \<in> set (butlast es). \<not> failed x)
     \<and> (es \<noteq> [] \<and> failed (last es) \<longrightarrow> (\<exists>e'. r = Some e' \<and> snd (last es) = Some (cause e')))"

fun errv :: "error + 'a \<Rightarrow> error option" where
  "errv (Inl e) = Some e"
| "errv (Inr v) = None"

fun returned :: "error option + 'a \<Rightarrow> error option" where
  "returned (Inl r) = r"
| "returned (Inr v) = None"

text \<open>
  What is shown of every part of the script: the new world is the old one after the calls
  made, the calls are in order for the returned error, and they are made phase by phase,
  within the phases \<open>lo\<close> to \<open>hi\<close>.
\<close>

definition summary :: "nat \<Rightarrow> nat \<Rightarrow> error option \<Rightarrow> world \<Rightarrow> world \<Rightarrow> bool" where
  "summary lo hi r w w' \<longleftrightarrow>
     w' = after (trace w w') w
     \<and> ok_trace r (trace w w')
     \<and> sorted (map (phase_of \<circ> fst) (trace w w'))
     \<and> (\<forall>x \<in> set (trace w w'). lo \<le> phase_of (fst x) \<and> phase_of (fst x) \<le> hi)"

fun is_wrapped :: "error \<Rightarrow> bool" where
  "is_wrapped (Wrap e label) = True"
| "is_wrapped e = False"

text \<open>
  How \<open>UpdateProjectV3\<close> returns the error \<open>e\<close> of a failed call, read off the return
  statements of the source: with the label of line 62 around it for the consistency check;
  with the labels of lines 127 and 133 for the two listings; with the label of
  \<open>copyMigrations\<close> or \<open>copyFiles\<close> (lines 219, 224, 237) and then the label of line 150
  or 154 for a copy; with the label of lines 173 and 177 for the removal of an original
  migration or seed; as it is for the removal of the two old metadata files (line 182);
  and as it is for every other call (the prompts, \<open>GetSources\<close>, the store calls of
  \<open>CopyState\<close>, \<open>WriteConfig\<close>, the export and the writing of the metadata). For the
  reading and the writing of the catalog state (lines 317 and 321) the source makes a new
  error whose text is the label followed by the text of \<open>e\<close> (\<open>fmt.Errorf\<close> with \<open>%v\<close>);
  \<open>Wrap\<close> stands for that as well.
\<close>

fun returned_as :: "UpdateProjectV3Opts \<Rightarrow> op \<Rightarrow> error \<Rightarrow> error \<Rightarrow> bool" where
  "returned_as opts OpGetInconsistentMetadata e e' =
     (e' = Wrap e ''determing server metadata inconsistency'')"
| "returned_as opts (OpReadDir p) e e' =
     ((p = MigrationsAbsDirectoryPath opts \<and> e' = Wrap e ''getting list of migrations to move'')
      \<or> (p = SeedsAbsDirectoryPath opts \<and> e' = Wrap e ''getting list of seed files to move''))"
| "returned_as opts (OpCopyDir src dst) e e' =
     (butlast src = MigrationsAbsDirectoryPath opts
      \<and> e' = Wrap (Wrap e (''moving '' @ last src @ '' to '' @ path_string (butlast dst)))
                 ''moving migrations to target database directory'')"
| "returned_as opts (OpCopyFile src dst) e e' =
     ((butlast src = MigrationsAbsDirectoryPath opts
       \<and> e' = Wrap (Wrap e (''moving '' @ last src @ '' to '' @ path_string (butlast dst)))
                  ''moving migrations to target database directory'')
      \<or> (butlast src = SeedsAbsDirectoryPath opts
          \<and> e' = Wrap (Wrap e (''moving '' @ last src @ '' to '' @ path_string (butlast dst)))
                     ''moving seeds to target database directory''))"
| "returned_as opts (OpRemoveAll p) e e' =
     (((butlast p = MigrationsAbsDirectoryPath opts \<or> butlast p = SeedsAbsDirectoryPath opts)
       \<and> e' = Wrap e ''removing up original migrations'')
      \<or> (butlast p = MetadataDir opts \<and> (last p = ''functions.yaml'' \<or> last p = ''tables.yaml'')
          \<and> e' = e))"
| "returned_as opts OpCatalogGet e e' = (e' = Wrap e ''error while fetching catalog state'')"
| "returned_as opts (OpCatalogSet c) e e' = (e' = Wrap e ''cannot set catalog state'')"
| "returned_as opts c e e' = (e' = e)"

text \<open>
  A list of calls puts the blame for a returned error \<open>r\<close> as \<open>P\<close> says when a failure of
  the last call comes back as \<open>r\<close> in the way \<open>P\<close> describes.
\<close>

definition blame ::
  "(op \<Rightarrow> error \<Rightarrow> error \<Rightarrow> bool) \<Rightarrow> error option \<Rightarrow> (op \<times> error option) list \<Rightarrow> bool" where
  "blame P r es \<longleftrightarrow>
     (es \<noteq> [] \<and> failed (last es) \<longrightarrow>
        (\<exists>e e'. snd (last es) = Some e \<and> r = Some e' \<and> P (fst (last es)) e e'))"

fun is_select :: "op \<Rightarrow> bool" where
  "is_select (OpSelectPrompt options) = True"
| "is_select c = False"

section \<open>A small project\<close>

text \<open>
  A project at config V2 with one connected source \<open>default\<close>: one migration directory,
  one seed file and one old metadata file. The examples below vary the fault plan, the
  options and the answers of the server.
\<close>

definition ex_opts :: UpdateProjectV3Opts where
  "ex_opts = \<lparr>MigrationsAbsDirectoryPath = [''m''], SeedsAbsDirectoryPath = [''s''],
     MetadataDir = [''d''], TargetDatabase = [], Force = True, MoveStateOnly = False\<rparr>"

definition ex_env :: env where
  "ex_env = \<lparr>faults = {}, HasMetadataV3 = True, ServerVersion = ''v2.0.0'', IsConsistent = True,
     YesNoAnswer = ''y'', Sources = [''default''], SelectAnswer = ''default'',
     ServerMetadata = [(''version.yaml'', ''3'')]\<rparr>"

definition ex_catalog :: CLICatalogState where
  "ex_catalog = \<lparr>Migrations = [], Settings = [], IsStateCopyCompleted = False\<rparr>"

definition ex_world :: world where
  "ex_world = \<lparr>st = \<lparr>fs = Dir [(''d'', Dir [(''tables.yaml'', File ''t'')]),
                               (''m'', Dir [(''1610000000000_init'', Dir [(''up.sql'', File ''a'')])]),
                               (''s'', Dir [(''seed1.sql'', File ''b'')])],
       config_version = V2, hdb_migrations = [(1610000000000, False)],
       hdb_settings = [(''migration_mode'', ''true'')], catalog = ex_catalog\<rparr>,
     calls = []\<rparr>"

text \<open>The copy of the migration directory fails.\<close>

definition ex_env_copy_fault :: env where
  "ex_env_copy_fault = ex_env\<lparr>faults :=
     {OpCopyDir [''m'', ''1610000000000_init''] [''m'', ''default'', ''1610000000000_init'']}\<rparr>"

text \<open>The table-backed store cannot be prepared.\<close>

definition ex_env_store_fault :: env where
  "ex_env_store_fault = ex_env\<lparr>faults := {OpPrepareMigrationsSrc ''default''}\<rparr>"

text \<open>Only the state is to be moved.\<close>

definition ex_opts_state_only :: UpdateProjectV3Opts where
  "ex_opts_state_only = ex_opts\<lparr>MoveStateOnly := True\<rparr>"

text \<open>No source is connected; two sources are connected; the target is named and only the state is to be moved.\<close>

definition ex_env_no_sources :: env where
  "ex_env_no_sources = ex_env\<lparr>Sources := []\<rparr>"

definition ex_env_two_sources :: env where
  "ex_env_two_sources = ex_env\<lparr>Sources := [''a'', ''b''], SelectAnswer := ''b''\<rparr>"


text \<open>The removal of the original migration directory fails.\<close>

definition ex_env_remove_fault :: env where
  "ex_env_remove_fault = ex_env\<lparr>faults := {OpRemoveAll [''m'', ''1610000000000_init'']}\<rparr>"

section \<open>Properties of the project tree\<close>

lemma lookup_append: "lookup n (p @ q) = (case lookup n p of None \<Rightarrow> None | Some m \<Rightarrow> lookup m q)"
proof (induction p arbitrary: n)
  case Nil
  then show ?case by simp
next
  case (Cons x p)
  then show ?case by (cases n) (auto split: option.splits)
qed

lemma put_lookup_same: "put p new n = Some n' \<Longrightarrow> lookup n' p = Some new"
proof (induction p arbitrary: n n')
  case Nil
  then show ?case by simp
next
  case (Cons x p)
  then show ?case
    by (cases n) (auto simp: update_conv' split: if_splits option.splits)
qed

lemma put_lookup_other: "put p new n = Some n' \<Longrightarrow> p \<parallel> q \<Longrightarrow> lookup n' q = lookup n q"
proof (induction p arbitrary: n n' q)
  case Nil
  then show ?case by (simp add: parallel_def)
next
  case (Cons x p)
  show ?case
  proof (cases q)
    case Nil
    with Cons.prems show ?thesis by (simp add: parallel_def)
  next
    case (Cons y q')
    with Cons.prems Cons.IH show ?thesis
      by (cases n) (auto simp: update_conv' parallel_def split: if_splits option.splits)
  qed
qed

lemma put_lookup_keeps:
  "put p new n = Some n' \<Longrightarrow> (\<forall>x r. lookup n (p @ x # r) = None) \<Longrightarrow> lookup n q \<noteq> None
   \<Longrightarrow> lookup n' q \<noteq> None"
proof (induction p arbitrary: n n' q)
  case Nil
  then show ?case by (cases q) auto
next
  case (Cons x p)
  show ?case
  proof (cases q)
    case Nil
    then show ?thesis by simp
  next
    case (Cons y q')
    show ?thesis
    proof (cases n)
      case (File c)
      with Cons.prems show ?thesis by simp
    next
      case (Dir es)
      show ?thesis
      proof (cases "y = x")
        case False
        with Cons.prems Dir \<open>q = y # q'\<close> show ?thesis
          by (auto simp: update_conv' split: if_splits option.splits)
      next
        case True
        show ?thesis
        proof (cases "p = []")
          case True
          with Cons.prems Dir \<open>q = y # q'\<close> \<open>y = x\<close> show ?thesis
            by (cases q') (auto simp: update_conv' split: if_splits option.splits)
        next
          case False
          with Cons.prems Dir \<open>q = y # q'\<close> \<open>y = x\<close> Cons.IH show ?thesis
            by (auto simp: update_conv' split: if_splits option.splits)
        qed
      qed
    qed
  qed
qed

lemma unlink_lookup_gone: "p \<noteq> [] \<Longrightarrow> lookup (unlink p n) (p @ q) = None"
proof (induction p arbitrary: n)
  case Nil
  then show ?case by simp
next
  case (Cons x p)
  then show ?case
    by (cases n) (auto simp: update_conv' delete_conv' split: if_splits option.splits)
qed

lemma unlink_lookup_other: "p \<parallel> q \<Longrightarrow> lookup (unlink p n) q = lookup n q"
proof (induction p arbitrary: n q)
  case Nil
  then show ?case by (simp add: parallel_def)
next
  case (Cons x p)
  show ?case
  proof (cases q)
    case Nil
    with Cons.prems show ?thesis by (simp add: parallel_def)
  next
    case (Cons y q')
    with Cons.prems Cons.IH show ?thesis
      by (cases n) (auto simp: update_conv' delete_conv' parallel_def split: if_splits option.splits)
  qed
qed

lemma unlink_lookup_absent: "lookup n q = None \<Longrightarrow> lookup (unlink p n) q = None"
proof (induction p arbitrary: n q)
  case Nil
  then show ?case by simp
next
  case (Cons x p)
  show ?case
  proof (cases q)
    case Nil
    with Cons.prems show ?thesis by simp
  next
    case (Cons y q')
    with Cons.prems Cons.IH show ?thesis
      by (cases n) (auto simp: update_conv' delete_conv' split: if_splits option.splits)
  qed
qed

section \<open>Worlds and lists of calls\<close>

lemma replay_Nil [simp]: "replay [] s = s"
  by (simp add: replay_def)

lemma replay_Cons [simp]: "replay (x # es) s = replay es (replay1 x s)"
  by (simp add: replay_def)

lemma replay_append [simp]: "replay (es1 @ es2) s = replay es2 (replay es1 s)"
  by (simp add: replay_def)

lemma after_Nil [simp]: "after [] w = w"
  by (simp add: after_def)

lemma after_after [simp]: "after es2 (after es1 w) = after (es1 @ es2) w"
  by (simp add: after_def)

lemma trace_after [simp]: "trace w (after es w) = es"
  by (simp add: after_def trace_def)

lemma trace_same [simp]: "trace w w = []"
  by (simp add: trace_def)

lemma st_after [simp]: "st (after es w) = replay es (st w)"
  by (simp add: after_def)

lemma calls_after [simp]: "calls (after es w) = calls w @ es"
  by (simp add: after_def)

lemma ok_trace_Nil [simp]: "ok_trace r []"
  by (simp add: ok_trace_def)

lemma ok_trace_None [simp]: "ok_trace None es \<longleftrightarrow> (\<forall>x \<in> set es. \<not> failed x)"
proof (cases es rule: rev_cases)
  case Nil
  then show ?thesis by simp
next
  case (snoc ys y)
  then show ?thesis by (auto simp: ok_trace_def)
qed

lemma ok_trace_single [simp]:
  "ok_trace r [x] \<longleftrightarrow> (failed x \<longrightarrow> (\<exists>e'. r = Some e' \<and> snd x = Some (cause e')))"
  by (simp add: ok_trace_def)

lemma ok_trace_append:
  "es2 \<noteq> [] \<Longrightarrow> ok_trace r (es1 @ es2) \<longleftrightarrow> (\<forall>x \<in> set es1. \<not> failed x) \<and> ok_trace r es2"
  by (auto simp: ok_trace_def butlast_append)

lemma ok_trace_snoc [simp]:
  "ok_trace r (es @ [x]) \<longleftrightarrow> (\<forall>y \<in> set es. \<not> failed y) \<and> ok_trace r [x]"
  by (simp add: ok_trace_append)

lemma ok_trace_Cons [simp]:
  "es \<noteq> [] \<Longrightarrow> ok_trace r (x # es) \<longleftrightarrow> \<not> failed x \<and> ok_trace r es"
  using ok_trace_append [of es r "[x]"] by simp

lemma ok_trace_clean: "\<forall>x \<in> set es. \<not> failed x \<Longrightarrow> ok_trace r es"
  by (cases es rule: rev_cases) (auto simp: ok_trace_def)

lemma ok_trace_Wrap: "ok_trace (Some e) es \<Longrightarrow> ok_trace (Some (Wrap e label)) es"
  by (auto simp: ok_trace_def)

lemma ok_trace_extend:
  "\<forall>x \<in> set es1. \<not> failed x \<Longrightarrow> ok_trace r es2 \<Longrightarrow> ok_trace r (es1 @ es2)"
  by (cases "es2 = []") (auto simp: ok_trace_append ok_trace_clean)

lemma summary_after:
  "summary lo hi r w (after es w) \<longleftrightarrow>
     ok_trace r es \<and> sorted (map (phase_of \<circ> fst) es)
     \<and> (\<forall>x \<in> set es. lo \<le> phase_of (fst x) \<and> phase_of (fst x) \<le> hi)"
  by (simp add: summary_def)

lemma summaryD:
  "summary lo hi r w w' \<Longrightarrow>
     \<exists>es. w' = after es w \<and> ok_trace r es \<and> sorted (map (phase_of \<circ> fst) es)
          \<and> (\<forall>x \<in> set es. lo \<le> phase_of (fst x) \<and> phase_of (fst x) \<le> hi)"
  unfolding summary_def by blast

lemma summary_same [simp]: "summary lo hi r w w"
  using summary_after [of lo hi r w "[]"] by simp

lemma effect_error_cause: "effect c s = Inl e \<Longrightarrow> cause e = e"
  by (cases c)
     (auto simp: mkdir_def removeAll_def copyFile_def copyDir_def writeMetadata_def
        copyMigrationState_def copySettingsState_def
        split: option.splits node.splits list.splits)

lemma fault_error_cause [simp]: "cause (fault_error c) = fault_error c"
  by (cases c) auto

lemma call_after:
  assumes "call env c w = (r, w')"
  shows "w' = after [(c, r)] w"
    and "r = None \<Longrightarrow> c \<notin> faults env \<and> effect c (st w) = Inr (st w')"
    and "r = Some e \<Longrightarrow> cause e = e \<and> st w' = st w"
  using assms
  by (auto simp: call_def after_def logged_def effect_error_cause split: if_splits sum.splits)

lemma callv_after:
  assumes "callv env c f w = (r, w')" and "\<And>s. effect c s = Inr s"
  shows "w' = after [(c, errv r)] w"
    and "st w' = st w"
    and "r = Inr v \<Longrightarrow> c \<notin> faults env \<and> f (st w) = Inr v"
    and "r = Inl e \<Longrightarrow> (c \<in> faults env \<and> e = fault_error c) \<or> (c \<notin> faults env \<and> f (st w) = Inl e)"
proof -
  show "w' = after [(c, errv r)] w"
  proof (cases "c \<in> faults env")
    case True
    with assms show ?thesis by (auto simp: callv_def after_def logged_def)
  next
    case False
    show ?thesis
    proof (cases "f (st w)")
      case (Inl a)
      with False assms(1) have "r = Inl a" and "w' = logged c (Some a) w"
        by (auto simp: callv_def)
      then show ?thesis by (simp add: after_def logged_def)
    next
      case (Inr b)
      with False assms(1) have "r = Inr b" and "w' = logged c None w"
        by (auto simp: callv_def)
      then show ?thesis using assms(2) by (simp add: after_def logged_def)
    qed
  qed
  then show "st w' = st w"
    using assms(2) by (cases r) (simp_all add: after_def)
  show "r = Inr v \<Longrightarrow> c \<notin> faults env \<and> f (st w) = Inr v"
    using assms(1) by (cases "f (st w)") (auto simp: callv_def split: if_splits)
  show "r = Inl e \<Longrightarrow> (c \<in> faults env \<and> e = fault_error c) \<or> (c \<notin> faults env \<and> f (st w) = Inl e)"
    using assms(1) by (cases "f (st w)") (auto simp: callv_def split: if_splits)
qed

lemma summary_seq:
  assumes "summary lo mid None w w1" and "summary mid' hi r w1 w2"
    and "mid \<le> mid'" and "lo \<le> mid'" and "mid \<le> hi"
  shows "summary lo hi r w w2"
proof -
  from summaryD [OF assms(1)] obtain es1 where 1: "w1 = after es1 w"
    "\<forall>x \<in> set es1. \<not> failed x" "sorted (map (phase_of \<circ> fst) es1)"
    "\<forall>x \<in> set es1. lo \<le> phase_of (fst x) \<and> phase_of (fst x) \<le> mid"
    by auto
  from summaryD [OF assms(2)] obtain es2 where 2: "w2 = after es2 w1"
    "ok_trace r es2" "sorted (map (phase_of \<circ> fst) es2)"
    "\<forall>x \<in> set es2. mid' \<le> phase_of (fst x) \<and> phase_of (fst x) \<le> hi"
    by auto
  have w2: "w2 = after (es1 @ es2) w"
    using 1(1) 2(1) by simp
  have "ok_trace r (es1 @ es2)"
    using 1(2) 2(2) by (rule ok_trace_extend)
  moreover have "sorted (map (phase_of \<circ> fst) (es1 @ es2))"
    using 1(3,4) 2(3,4) assms(3) by (fastforce simp: sorted_append)
  moreover have "\<forall>x \<in> set (es1 @ es2). lo \<le> phase_of (fst x) \<and> phase_of (fst x) \<le> hi"
    using 1(4) 2(4) assms(3,4,5) by fastforce
  ultimately show ?thesis
    unfolding w2 summary_after by blast
qed

lemma summary_then:
  "summary k k None w w1 \<Longrightarrow> summary k k r w1 w2 \<Longrightarrow> summary k k r w w2"
  by (rule summary_seq [where mid = k and mid' = k]) simp_all

lemma summary_Wrap: "summary lo hi (Some e) w w' \<Longrightarrow> summary lo hi (Some (Wrap e label)) w w'"
  unfolding summary_def by (blast intro: ok_trace_Wrap)

lemma summary_None: "summary lo hi None w w' \<Longrightarrow> summary lo hi r w w'"
  unfolding summary_def by (metis ok_trace_None ok_trace_clean)

lemma summary_weaken:
  "summary lo hi r w w' \<Longrightarrow> lo' \<le> lo \<Longrightarrow> hi \<le> hi' \<Longrightarrow> summary lo' hi' r w w'"
  unfolding summary_def by fastforce

lemma call_summary:
  assumes "call env c w = (r, w')"
  shows "summary (phase_of c) (phase_of c) r w w'"
proof -
  have "w' = after [(c, r)] w"
    using assms by (rule call_after)
  moreover have "ok_trace r [(c, r)]"
    using call_after(3) [OF assms] by (cases r) (auto simp: failed_def)
  ultimately show ?thesis
    by (simp add: summary_after)
qed

lemma call_passed_over_summary:
  assumes "call env c w = (r, w')" and "passed_over c"
  shows "summary (phase_of c) (phase_of c) None w w'"
proof -
  have "w' = after [(c, r)] w"
    using assms(1) by (rule call_after)
  then show ?thesis
    using assms(2) by (simp add: summary_after failed_def)
qed

lemma callv_summary:
  assumes "callv env c f w = (r, w')" and "\<And>s. effect c s = Inr s"
    and "\<And>s e. f s = Inl e \<Longrightarrow> cause e = e"
  shows "summary (phase_of c) (phase_of c) (errv r) w w'"
proof -
  have "w' = after [(c, errv r)] w"
    using assms(1,2) by (rule callv_after)
  moreover have "ok_trace (errv r) [(c, errv r)]"
  proof (cases r)
    case (Inl e)
    with callv_after(4) [OF assms(1,2)] assms(3) have "cause e = e"
      by auto
    with Inl show ?thesis by (simp add: failed_def)
  next
    case (Inr v)
    then show ?thesis by (simp add: failed_def)
  qed
  ultimately show ?thesis
    by (simp add: summary_after)
qed

lemma callv_passed_over_summary:
  assumes "callv env c f w = (r, w')" and "\<And>s. effect c s = Inr s" and "passed_over c"
  shows "summary (phase_of c) (phase_of c) None w w'"
proof -
  have "w' = after [(c, errv r)] w"
    using assms(1,2) by (rule callv_after)
  then show ?thesis
    using assms(3) by (simp add: summary_after failed_def)
qed

lemma Stat_summary: "Stat env p w = (r, w') \<Longrightarrow> summary 4 4 None w w'"
  unfolding Stat_def by (drule callv_passed_over_summary) simp_all

lemma ReadDir_summary: "ReadDir env p w = (r, w') \<Longrightarrow> summary 4 4 (errv r) w w'"
  unfolding ReadDir_def
  by (drule callv_summary) (auto split: option.splits node.splits)

lemma Mkdir_summary: "Mkdir env p w = (r, w') \<Longrightarrow> summary 4 4 None w w'"
  unfolding Mkdir_def by (drule call_passed_over_summary) simp_all

lemma RemoveAll_summary: "RemoveAll env p w = (r, w') \<Longrightarrow> summary 6 6 r w w'"
  unfolding RemoveAll_def by (drule call_summary) simp

lemma CopyFileAfero_summary: "CopyFileAfero env src dst w = (r, w') \<Longrightarrow> summary 4 4 r w w'"
  unfolding CopyFileAfero_def by (drule call_summary) simp

lemma CopyDirAfero_summary: "CopyDirAfero env src dst w = (r, w') \<Longrightarrow> summary 4 4 r w w'"
  unfolding CopyDirAfero_def by (drule call_summary) simp

lemma GetInconsistentMetadata_summary:
  "GetInconsistentMetadata env w = (r, w') \<Longrightarrow> summary 0 0 (errv r) w w'"
  unfolding GetInconsistentMetadata_def by (drule callv_summary) simp_all

lemma GetYesNoPrompt_summary: "GetYesNoPrompt env q w = (r, w') \<Longrightarrow> summary 1 1 (errv r) w w'"
  unfolding GetYesNoPrompt_def by (drule callv_summary) simp_all

lemma GetSources_summary: "GetSources env w = (r, w') \<Longrightarrow> summary 2 2 (errv r) w w'"
  unfolding GetSources_def by (drule callv_summary) simp_all

lemma GetSelectPrompt_summary:
  "GetSelectPrompt env q options w = (r, w') \<Longrightarrow> summary 2 2 (errv r) w w'"
  unfolding GetSelectPrompt_def by (drule callv_summary) simp_all

lemma WriteConfig_summary: "WriteConfig env v w = (r, w') \<Longrightarrow> summary 5 5 r w w'"
  unfolding WriteConfig_def by (drule call_summary) simp

lemma ExportMetadata_summary: "ExportMetadata env w = (r, w') \<Longrightarrow> summary 7 7 (errv r) w w'"
  unfolding ExportMetadata_def by (drule callv_summary) simp_all

lemma WriteMetadata_summary: "WriteMetadata env dir files w = (r, w') \<Longrightarrow> summary 7 7 r w w'"
  unfolding WriteMetadata_def by (drule call_summary) simp

lemma removeDirectories_summary:
  "removeDirectories env parent ds w = (r, w') \<Longrightarrow> summary 6 6 r w w'"
proof (induction ds arbitrary: w)
  case Nil
  then show ?case by simp
next
  case (Cons d ds)
  obtain r1 w1 where 1: "RemoveAll env (parent @ [d]) w = (r1, w1)"
    by (cases "RemoveAll env (parent @ [d]) w")
  show ?case
  proof (cases r1)
    case None
    with 1 Cons.prems have "removeDirectories env parent ds w1 = (r, w')"
      by simp
    then have "summary 6 6 r w1 w'"
      by (rule Cons.IH)
    moreover have "summary 6 6 None w w1"
      using RemoveAll_summary [OF 1] None by simp
    ultimately show ?thesis
      by (blast intro: summary_then)
  next
    case (Some err)
    with 1 Cons.prems have "r = r1" and "w' = w1"
      by simp_all
    then show ?thesis
      using RemoveAll_summary [OF 1] by simp
  qed
qed

lemma copyFiles_summary:
  "copyFiles env files parent target w = (r, w') \<Longrightarrow> summary 4 4 r w w'"
proof (induction files arbitrary: w)
  case Nil
  then show ?case by simp
next
  case (Cons d ds)
  obtain r1 w1 where 1: "CopyFileAfero env (parent @ [d]) (target @ [d]) w = (r1, w1)"
    by (cases "CopyFileAfero env (parent @ [d]) (target @ [d]) w")
  show ?case
  proof (cases r1)
    case None
    with 1 Cons.prems have "copyFiles env ds parent target w1 = (r, w')"
      by simp
    then have "summary 4 4 r w1 w'"
      by (rule Cons.IH)
    moreover have "summary 4 4 None w w1"
      using CopyFileAfero_summary [OF 1] None by simp
    ultimately show ?thesis
      by (blast intro: summary_then)
  next
    case (Some err)
    with 1 Cons.prems
    have "r = Some (Wrap err (''moving '' @ d @ '' to '' @ path_string target))" and "w' = w1"
      by simp_all
    then show ?thesis
      using CopyFileAfero_summary [OF 1] Some by (simp add: summary_Wrap)
  qed
qed

lemma copyMigrations_summary:
  "copyMigrations env dirs parent target w = (r, w') \<Longrightarrow> summary 4 4 r w w'"
proof (induction dirs arbitrary: w)
  case Nil
  then show ?case by simp
next
  case (Cons d ds)
  obtain f w1 where 1: "Stat env (parent @ [d]) w = (f, w1)"
    by (cases "Stat env (parent @ [d]) w")
  have s1: "summary 4 4 None w w1"
    using 1 by (rule Stat_summary)
  show ?case
  proof (cases f)
    case (Inl ignored)
    with 1 Cons.prems have "copyMigrations env ds parent target w1 = (r, w')"
      by simp
    then have "summary 4 4 r w1 w'"
      by (rule Cons.IH)
    with s1 show ?thesis
      by (blast intro: summary_then)
  next
    case (Inr isdir)
    define cp where "cp = (if isdir then CopyDirAfero env (parent @ [d]) (target @ [d]) w1
                           else CopyFileAfero env (parent @ [d]) (target @ [d]) w1)"
    obtain r2 w2 where 2: "cp = (r2, w2)"
      by (cases cp)
    have s2: "summary 4 4 r2 w1 w2"
      using 2 unfolding cp_def
      by (auto split: if_splits intro: CopyDirAfero_summary CopyFileAfero_summary)
    show ?thesis
    proof (cases r2)
      case None
      with 1 2 Inr Cons.prems have "copyMigrations env ds parent target w2 = (r, w')"
        by (simp add: cp_def)
      then have "summary 4 4 r w2 w'"
        by (rule Cons.IH)
      with s1 s2 None show ?thesis
        by (blast intro: summary_then)
    next
      case (Some err)
      with 1 2 Inr Cons.prems
      have "r = Some (Wrap err (''moving '' @ d @ '' to '' @ path_string target))" and "w' = w2"
        by (simp_all add: cp_def)
      with s1 s2 Some show ?thesis
        by (blast intro: summary_then summary_Wrap)
    qed
  qed
qed

lemma summary_None_Some: "summary lo hi None w w' \<Longrightarrow> summary lo hi (Some e) w w'"
  by (rule summary_None)

lemma PrepareMigrationsStateStoreHdbTable_summary:
  "PrepareMigrationsStateStoreHdbTable env a w = (r, w') \<Longrightarrow> summary 3 3 r w w'"
  unfolding PrepareMigrationsStateStoreHdbTable_def by (drule call_summary) simp

lemma PrepareMigrationsStateStoreCatalog_summary:
  "PrepareMigrationsStateStoreCatalog env a w = (r, w') \<Longrightarrow> summary 3 3 r w w'"
  unfolding PrepareMigrationsStateStoreCatalog_def by (drule call_summary) simp

lemma CopyMigrationState_summary:
  "CopyMigrationState env a b w = (r, w') \<Longrightarrow> summary 3 3 r w w'"
  unfolding CopyMigrationState_def by (drule call_summary) simp

lemma PrepareSettingsDriverHdbTable_summary:
  "PrepareSettingsDriverHdbTable env w = (r, w') \<Longrightarrow> summary 3 3 r w w'"
  unfolding PrepareSettingsDriverHdbTable_def by (drule call_summary) simp

lemma PrepareSettingsDriverCatalog_summary:
  "PrepareSettingsDriverCatalog env w = (r, w') \<Longrightarrow> summary 3 3 r w w'"
  unfolding PrepareSettingsDriverCatalog_def by (drule call_summary) simp

lemma CopySettingsState_summary:
  "CopySettingsState env w = (r, w') \<Longrightarrow> summary 3 3 r w w'"
  unfolding CopySettingsState_def by (drule call_summary) simp

lemma CLICatalogStateGet_summary:
  "CLICatalogStateGet env w = (r, w') \<Longrightarrow> summary 3 3 (errv r) w w'"
  unfolding CLICatalogStateGet_def by (drule callv_summary) simp_all

lemma CLICatalogStateSet_summary:
  "CLICatalogStateSet env c w = (r, w') \<Longrightarrow> summary 3 3 r w w'"
  unfolding CLICatalogStateSet_def by (drule call_summary) simp

lemmas store_summaries =
  PrepareMigrationsStateStoreHdbTable_summary PrepareMigrationsStateStoreCatalog_summary
  CopyMigrationState_summary PrepareSettingsDriverHdbTable_summary
  PrepareSettingsDriverCatalog_summary CopySettingsState_summary
  CLICatalogStateGet_summary CLICatalogStateSet_summary

lemma matching_loop_error: "matching_loop isHasuraCLIGeneratedMigration dirs migs \<noteq> Inl e"
  by (induction dirs arbitrary: migs) (auto simp: isHasuraCLIGeneratedMigration_def Let_def)

lemma getMigrationDirectoryNames_summary:
  assumes "getMigrationDirectoryNames env p w = (r, w')"
  shows "summary 4 4 (errv r) w w'"
proof -
  obtain r1 w1 where 1: "ReadDir env p w = (r1, w1)"
    by (cases "ReadDir env p w")
  show ?thesis
  proof (cases r1)
    case (Inl err)
    with 1 assms have "r = Inl err" and "w' = w1"
      by (simp_all add: getMigrationDirectoryNames_def getMatchingFilesAndDirs_def)
    with ReadDir_summary [OF 1] Inl show ?thesis by simp
  next
    case (Inr dirs)
    with 1 assms have "w' = w1"
      by (simp add: getMigrationDirectoryNames_def getMatchingFilesAndDirs_def)
    with ReadDir_summary [OF 1] Inr have "summary 4 4 None w w'" by simp
    then show ?thesis by (rule summary_None)
  qed
qed

lemma getSeedFiles_summary:
  "getSeedFiles env p w = (r, w') \<Longrightarrow> summary 4 4 (errv r) w w'"
  unfolding getSeedFiles_def
  by (auto split: prod.splits sum.splits dest!: ReadDir_summary)

subsection \<open>The phases\<close>

lemma andThenE:
  assumes "andThen m f w = (r, w')"
  obtains (stop) x where "m w = (Inl x, w')" and "r = Inl x"
        | (continue) v w1 where "m w = (Inr v, w1)" and "f v w1 = (r, w')"
  using assms by (auto simp: andThen_def split: prod.splits sum.splits)

lemma step_option:
  assumes "(case m w of (None, w1) \<Rightarrow> k w1 | (Some err, w1) \<Rightarrow> (H err, w1)) = (r, w')"
  obtains (stop) err where "m w = (Some err, w')" and "r = H err"
        | (go) w1 where "m w = (None, w1)" and "k w1 = (r, w')"
proof (cases "m w")
  case (Pair r1 w1)
  with assms stop go show ?thesis
    by (cases r1) auto
qed

lemma step_sum:
  assumes "(case m w of (Inl err, w1) \<Rightarrow> (H err, w1) | (Inr v, w1) \<Rightarrow> k v w1) = (r, w')"
  obtains (stop) err where "m w = (Inl err, w')" and "r = H err"
        | (go) v w1 where "m w = (Inr v, w1)" and "k v w1 = (r, w')"
proof (cases "m w")
  case (Pair r1 w1)
  with assms stop go show ?thesis
    by (cases r1) auto
qed

lemma CopyState_summary:
  assumes "CopyState env a b w = (r, w')"
  shows "summary 3 3 r w w'"
  using assms unfolding CopyState_def
proof (cases rule: step_option)
  case (stop err)
  then show ?thesis using PrepareMigrationsStateStoreHdbTable_summary by simp
next
  case (go w1)
  note s1 = PrepareMigrationsStateStoreHdbTable_summary [OF go(1)]
  from go(2) show ?thesis
  proof (cases rule: step_option)
    case (stop err)
    with s1 PrepareMigrationsStateStoreCatalog_summary show ?thesis
      by (blast intro: summary_then)
  next
    case (go w2)
    note s2 = summary_then [OF s1 PrepareMigrationsStateStoreCatalog_summary [OF go(1)]]
    from go(2) show ?thesis
    proof (cases rule: step_option)
      case (stop err)
      with s2 CopyMigrationState_summary show ?thesis
        by (blast intro: summary_then)
    next
      case (go w3)
      note s3 = summary_then [OF s2 CopyMigrationState_summary [OF go(1)]]
      from go(2) show ?thesis
      proof (cases rule: step_option)
        case (stop err)
        with s3 PrepareSettingsDriverHdbTable_summary show ?thesis
          by (blast intro: summary_then)
      next
        case (go w4)
        note s4 = summary_then [OF s3 PrepareSettingsDriverHdbTable_summary [OF go(1)]]
        from go(2) show ?thesis
        proof (cases rule: step_option)
          case (stop err)
          with s4 PrepareSettingsDriverCatalog_summary show ?thesis
            by (blast intro: summary_then)
        next
          case (go w5)
          note s5 = summary_then [OF s4 PrepareSettingsDriverCatalog_summary [OF go(1)]]
          from go(2) show ?thesis
          proof (cases rule: step_option)
            case (stop err)
            with s5 CopySettingsState_summary show ?thesis
              by (blast intro: summary_then)
          next
            case (go w6)
            note s6 = summary_then [OF s5 CopySettingsState_summary [OF go(1)]]
            from go(2) show ?thesis
            proof (cases rule: step_sum)
              case (stop err)
              from CLICatalogStateGet_summary [OF stop(1)]
              have "summary 3 3 (Some err) w6 w'" by simp
              with s6 stop(2) show ?thesis
                by (simp add: summary_then summary_Wrap)
            next
              case (go cliState w7)
              from CLICatalogStateGet_summary [OF go(1)]
              have "summary 3 3 None w6 w7" by simp
              note s7 = summary_then [OF s6 this]
              from go(2) show ?thesis
              proof (cases rule: step_option)
                case (stop err)
                from CLICatalogStateSet_summary [OF stop(1)] s7 stop(2) show ?thesis
                  by (simp add: summary_then summary_Wrap)
              next
                case (go w8)
                from CLICatalogStateSet_summary [OF go(1)] s7 go(2) show ?thesis
                  by (auto intro: summary_then)
              qed
            qed
          qed
        qed
      qed
    qed
  qed
qed

lemma step_any:
  assumes "(case m w of (x, w1) \<Rightarrow> k x w1) = (r, w')"
  obtains x w1 where "m w = (x, w1)" and "k x w1 = (r, w')"
  using assms by (cases "m w") auto

subsection \<open>The phases\<close>

lemma preChecks_summary:
  assumes "preChecks opts env w = (r, w')"
  shows "summary 0 0 (returned r) w w'"
proof (cases "config_version (st w) \<noteq> V2 \<and> \<not> MoveStateOnly opts")
  case True
  with assms show ?thesis by (simp add: preChecks_def)
next
  case a: False
  show ?thesis
  proof (cases "HasMetadataV3 env")
    case False
    with a assms show ?thesis by (auto simp: preChecks_def)
  next
    case True
    with a assms have
      "(case GetInconsistentMetadata env w of
          (Inl err, w1) \<Rightarrow> (Inl (Some (Wrap err ''determing server metadata inconsistency'')), w1)
        | (Inr c, w1) \<Rightarrow>
            if \<not> c then (Inl (Some (Msg ''cannot continue: metadata is inconsistent on the server'')), w1)
            else (Inr (), w1)) = (r, w')"
      by (auto simp: preChecks_def)
    then show ?thesis
    proof (cases rule: step_sum)
      case (stop err)
      with GetInconsistentMetadata_summary [OF stop(1)] show ?thesis
        by (simp add: summary_Wrap)
    next
      case (go c w1)
      with GetInconsistentMetadata_summary [OF go(1)] show ?thesis
        by (auto split: if_splits intro: summary_None_Some)
    qed
  qed
qed

lemma confirmContinue_summary:
  assumes "confirmContinue opts env w = (r, w')"
  shows "summary 1 1 (returned r) w w'"
proof (cases "Force opts")
  case True
  with assms show ?thesis by (auto simp: confirmContinue_def)
next
  case False
  with assms have
    "(case GetYesNoPrompt env ''continue?'' w of
        (Inl err, w1) \<Rightarrow> (Inl (Some err), w1)
      | (Inr response, w1) \<Rightarrow> if response = ''n'' then (Inl None, w1) else (Inr (), w1)) = (r, w')"
    by (simp add: confirmContinue_def)
  then show ?thesis
  proof (cases rule: step_sum)
    case (stop err)
    with GetYesNoPrompt_summary [OF stop(1)] show ?thesis by simp
  next
    case (go v w1)
    with GetYesNoPrompt_summary [OF go(1)] show ?thesis
      by (auto split: if_splits)
  qed
qed

lemma selectTargetDatabase_summary:
  assumes "selectTargetDatabase opts env w = (r, w')"
  shows "summary 2 2 (returned r) w w'"
  using assms unfolding selectTargetDatabase_def
proof (cases rule: step_sum)
  case (stop err)
  with GetSources_summary [OF stop(1)] show ?thesis by simp
next
  case (go sources w1)
  from GetSources_summary [OF go(1)] have s1: "summary 2 2 None w w1" by simp
  show ?thesis
  proof (cases "length (TargetDatabase opts) = 0")
    case False
    with go(2) s1 show ?thesis by auto
  next
    case t: True
    show ?thesis
    proof (cases "length sources = 1 \<and> sources ! 0 = ''default''")
      case True
      with t go(2) s1 show ?thesis by auto
    next
      case d: False
      show ?thesis
      proof (cases "length sources > 0")
        case False
        with t d go(2) s1 show ?thesis by (auto intro: summary_None_Some)
      next
        case True
        with t d go(2) have
          "(case GetSelectPrompt env ''what database does this current migrations / seeds belong to?'' sources w1 of
              (Inl err, w2) \<Rightarrow> (Inl (Some err), w2)
            | (Inr targetDatabase, w2) \<Rightarrow> (Inr (sources, targetDatabase), w2)) = (r, w')"
          by auto
        then show ?thesis
        proof (cases rule: step_sum)
          case (stop err)
          with GetSelectPrompt_summary [OF stop(1)] s1 show ?thesis
            by (auto intro: summary_then)
        next
          case (go v w2)
          with GetSelectPrompt_summary [OF go(1)] s1 show ?thesis
            by (auto intro: summary_then)
        qed
      qed
    qed
  qed
qed

lemma copyingState_summary:
  assumes "copyingState opts env sources t w = (r, w')"
  shows "summary 3 3 (returned r) w w'"
proof (cases "length sources \<ge> 1")
  case False
  with assms show ?thesis by (auto simp: copyingState_def)
next
  case True
  with assms have
    "(case CopyState env t t w of
        (None, w1) \<Rightarrow> if MoveStateOnly opts then (Inl None, w1) else (Inr (), w1)
      | (Some err, w1) \<Rightarrow> (Inl (Some err), w1)) = (r, w')"
    by (simp add: copyingState_def)
  then show ?thesis
  proof (cases rule: step_option)
    case (stop err)
    with CopyState_summary [OF stop(1)] show ?thesis by simp
  next
    case (go w1)
    with CopyState_summary [OF go(1)] show ?thesis by (auto split: if_splits)
  qed
qed

lemma copyOldMigrations_summary:
  assumes "copyOldMigrations opts env t w = (r, w')"
  shows "summary 4 4 (returned r) w w'"
  using assms unfolding copyOldMigrations_def Let_def
proof (cases rule: step_sum)
  case (stop err)
  with getMigrationDirectoryNames_summary [OF stop(1)] show ?thesis
    by (simp add: summary_Wrap)
next
  case (go migs w1)
  from getMigrationDirectoryNames_summary [OF go(1)] have s1: "summary 4 4 None w w1" by simp
  from go(2) show ?thesis
  proof (cases rule: step_sum)
    case (stop err)
    with getSeedFiles_summary [OF stop(1)] s1 show ?thesis
      by (simp add: summary_Wrap summary_then)
  next
    case (go seeds w2)
    from getSeedFiles_summary [OF go(1)] have "summary 4 4 None w1 w2" by simp
    note s2 = summary_then [OF s1 this]
    from go(2) obtain d1 w3 where m1: "Mkdir env (MigrationsAbsDirectoryPath opts @ [t]) w2 = (d1, w3)"
      and k3: "(case Mkdir env (SeedsAbsDirectoryPath opts @ [t]) w3 of
                 (dropped2, w4) \<Rightarrow>
                   (case copyMigrations env migs (MigrationsAbsDirectoryPath opts)
                           (MigrationsAbsDirectoryPath opts @ [t]) w4 of
                      (None, w5) \<Rightarrow>
                        (case copyFiles env seeds (SeedsAbsDirectoryPath opts)
                                (SeedsAbsDirectoryPath opts @ [t]) w5 of
                           (None, w6) \<Rightarrow> (Inr (migs, seeds), w6)
                         | (Some err, w6) \<Rightarrow>
                             (Inl (Some (Wrap err ''moving seeds to target database directory'')), w6))
                    | (Some err, w5) \<Rightarrow>
                        (Inl (Some (Wrap err ''moving migrations to target database directory'')), w5)))
               = (r, w')"
      by (rule step_any)
    note s3 = summary_then [OF s2 Mkdir_summary [OF m1]]
    from k3 obtain d2 w4 where m2: "Mkdir env (SeedsAbsDirectoryPath opts @ [t]) w3 = (d2, w4)"
      and k4: "(case copyMigrations env migs (MigrationsAbsDirectoryPath opts)
                           (MigrationsAbsDirectoryPath opts @ [t]) w4 of
                      (None, w5) \<Rightarrow>
                        (case copyFiles env seeds (SeedsAbsDirectoryPath opts)
                                (SeedsAbsDirectoryPath opts @ [t]) w5 of
                           (None, w6) \<Rightarrow> (Inr (migs, seeds), w6)
                         | (Some err, w6) \<Rightarrow>
                             (Inl (Some (Wrap err ''moving seeds to target database directory'')), w6))
                    | (Some err, w5) \<Rightarrow>
                        (Inl (Some (Wrap err ''moving migrations to target database directory'')), w5))
               = (r, w')"
      by (rule step_any)
    note s4 = summary_then [OF s3 Mkdir_summary [OF m2]]
    from k4 show ?thesis
    proof (cases rule: step_option)
      case (stop err)
      with copyMigrations_summary [OF stop(1)] s4 show ?thesis
        by (simp add: summary_Wrap summary_then)
    next
      case (go w5)
      note s5 = summary_then [OF s4 copyMigrations_summary [OF go(1)]]
      from go(2) show ?thesis
      proof (cases rule: step_option)
        case (stop err)
        with copyFiles_summary [OF stop(1)] s5 show ?thesis
          by (simp add: summary_Wrap summary_then)
      next
        case (go w6)
        with copyFiles_summary [OF go(1)] s5 show ?thesis
          by (auto intro: summary_then)
      qed
    qed
  qed
qed

lemma generateNewConfigFile_summary:
  assumes "generateNewConfigFile env w = (r, w')"
  shows "summary 5 5 (returned r) w w'"
  using assms unfolding generateNewConfigFile_def
proof (cases rule: step_option)
  case (stop err)
  with WriteConfig_summary [OF stop(1)] show ?thesis by simp
next
  case (go w1)
  with WriteConfig_summary [OF go(1)] show ?thesis by auto
qed

lemma deleteOldMigrationsAndSeeds_summary:
  assumes "deleteOldMigrationsAndSeeds opts env migs seeds w = (r, w')"
  shows "summary 6 6 (returned r) w w'"
  using assms unfolding deleteOldMigrationsAndSeeds_def
proof (cases rule: step_option)
  case (stop err)
  with removeDirectories_summary [OF stop(1)] show ?thesis by (simp add: summary_Wrap)
next
  case (go w1)
  note s1 = removeDirectories_summary [OF go(1)]
  from go(2) show ?thesis
  proof (cases rule: step_option)
    case (stop err)
    with removeDirectories_summary [OF stop(1)] s1 show ?thesis
      by (simp add: summary_Wrap summary_then)
  next
    case (go w2)
    note s2 = summary_then [OF s1 removeDirectories_summary [OF go(1)]]
    from go(2) show ?thesis
    proof (cases rule: step_option)
      case (stop err)
      with removeDirectories_summary [OF stop(1)] s2 show ?thesis
        by (simp add: summary_then)
    next
      case (go w3)
      with removeDirectories_summary [OF go(1)] s2 show ?thesis
        by (auto intro: summary_then)
    qed
  qed
qed

lemma exportMetadataFromServer_summary:
  assumes "exportMetadataFromServer opts env w = (r, w')"
  shows "summary 7 7 (returned r) w w'"
  using assms unfolding exportMetadataFromServer_def
proof (cases rule: step_sum)
  case (stop err)
  with ExportMetadata_summary [OF stop(1)] show ?thesis by simp
next
  case (go files w1)
  from ExportMetadata_summary [OF go(1)] have s1: "summary 7 7 None w w1" by simp
  from go(2) show ?thesis
  proof (cases rule: step_option)
    case (stop err)
    with WriteMetadata_summary [OF stop(1)] s1 show ?thesis
      by (simp add: summary_then)
  next
    case (go w2)
    with WriteMetadata_summary [OF go(1)] s1 show ?thesis
      by (auto intro: summary_then)
  qed
qed

lemma Reorganize_cases [consumes 1, case_names copy config delete]:
  assumes "Reorganize opts env t w = (r, w')"
  obtains
    (copy) x where "copyOldMigrations opts env t w = (Inl x, w')" and "r = Inl x"
  | (config) migs seeds w1 x where "copyOldMigrations opts env t w = (Inr (migs, seeds), w1)"
      and "generateNewConfigFile env w1 = (Inl x, w')" and "r = Inl x"
  | (delete) migs seeds w1 w2 where "copyOldMigrations opts env t w = (Inr (migs, seeds), w1)"
      and "generateNewConfigFile env w1 = (Inr (), w2)"
      and "deleteOldMigrationsAndSeeds opts env migs seeds w2 = (r, w')"
  using assms unfolding Reorganize_def
proof (cases rule: andThenE)
  case (stop x)
  then show ?thesis by (rule copy)
next
  case (continue v w1)
  obtain migs seeds where v: "v = (migs, seeds)" by (cases v)
  from continue(2) [unfolded v] have
    "andThen (generateNewConfigFile env)
       (\<lambda>u. deleteOldMigrationsAndSeeds opts env migs seeds) w1 = (r, w')"
    by simp
  then show ?thesis
  proof (cases rule: andThenE)
    case (stop x)
    with continue(1) v show ?thesis by (auto intro: config)
  next
    case c2: (continue u w2)
    with continue(1) v show ?thesis by (auto intro: delete)
  qed
qed

lemma Reorganize_summary:
  assumes "Reorganize opts env t w = (r, w')"
  shows "summary 4 6 (returned r) w w'"
  using assms
proof (cases rule: Reorganize_cases)
  case (copy x)
  with copyOldMigrations_summary [OF copy(1)] show ?thesis
    by (auto intro: summary_weaken)
next
  case (config migs seeds w1 x)
  from copyOldMigrations_summary [OF config(1)] have "summary 4 4 None w w1" by simp
  moreover from generateNewConfigFile_summary [OF config(2)] config(3)
  have "summary 5 5 (returned r) w1 w'" by simp
  ultimately have "summary 4 5 (returned r) w w'"
    by (rule summary_seq) simp_all
  then show ?thesis by (rule summary_weaken) simp_all
next
  case (delete migs seeds w1 w2)
  from copyOldMigrations_summary [OF delete(1)] have "summary 4 4 None w w1" by simp
  moreover from generateNewConfigFile_summary [OF delete(2)]
  have "summary 5 5 None w1 w2" by simp
  ultimately have "summary 4 5 None w w2"
    by (rule summary_seq) simp_all
  then show ?thesis
    using deleteOldMigrationsAndSeeds_summary [OF delete(3)]
    by (rule summary_seq) simp_all
qed

lemma UpdateProjectV3_cases [consumes 1, case_names pre confirm select state reorg export]:
  assumes "UpdateProjectV3 opts env w = (r, w')"
  obtains
    (pre) "preChecks opts env w = (Inl r, w')"
  | (confirm) w1 where "preChecks opts env w = (Inr (), w1)"
      and "confirmContinue opts env w1 = (Inl r, w')"
  | (select) w1 w2 where "preChecks opts env w = (Inr (), w1)"
      and "confirmContinue opts env w1 = (Inr (), w2)"
      and "selectTargetDatabase opts env w2 = (Inl r, w')"
  | (state) w1 w2 w3 sources t where "preChecks opts env w = (Inr (), w1)"
      and "confirmContinue opts env w1 = (Inr (), w2)"
      and "selectTargetDatabase opts env w2 = (Inr (sources, t), w3)"
      and "copyingState opts env sources t w3 = (Inl r, w')"
  | (reorg) w1 w2 w3 w4 sources t where "preChecks opts env w = (Inr (), w1)"
      and "confirmContinue opts env w1 = (Inr (), w2)"
      and "selectTargetDatabase opts env w2 = (Inr (sources, t), w3)"
      and "copyingState opts env sources t w3 = (Inr (), w4)"
      and "Reorganize opts env t w4 = (Inl r, w')"
  | (export) w1 w2 w3 w4 w5 sources t x where "preChecks opts env w = (Inr (), w1)"
      and "confirmContinue opts env w1 = (Inr (), w2)"
      and "selectTargetDatabase opts env w2 = (Inr (sources, t), w3)"
      and "copyingState opts env sources t w3 = (Inr (), w4)"
      and "Reorganize opts env t w4 = (Inr (), w5)"
      and "exportMetadataFromServer opts env w5 = (x, w')" and "r = returned x"
proof -
  define body where "body =
    andThen (preChecks opts env) (\<lambda>u.
    andThen (confirmContinue opts env) (\<lambda>u.
    andThen (selectTargetDatabase opts env) (\<lambda>(sources, targetDatabase).
    andThen (copyingState opts env sources targetDatabase) (\<lambda>u.
    andThen (Reorganize opts env targetDatabase) (\<lambda>u.
    exportMetadataFromServer opts env)))))"
  obtain x0 where b: "body w = (x0, w')" and r: "r = returned x0"
    using assms unfolding UpdateProjectV3_def body_def [symmetric]
    by (cases "body w"; cases "fst (body w)"; auto)
  from b [unfolded body_def] show ?thesis
  proof (cases rule: andThenE)
    case (stop x)
    with r show ?thesis by (auto intro: pre)
  next
    case c1: (continue u1 w1)
    from c1(2) show ?thesis
    proof (cases rule: andThenE)
      case (stop x)
      with r c1(1) show ?thesis by (auto intro: confirm)
    next
      case c2: (continue u2 w2)
      from c2(2) show ?thesis
      proof (cases rule: andThenE)
        case (stop x)
        with r c1(1) c2(1) show ?thesis by (auto intro: select)
      next
        case c3: (continue v w3)
        obtain sources t where v: "v = (sources, t)" by (cases v)
        from c3(2) [unfolded v] have
          "andThen (copyingState opts env sources t) (\<lambda>u.
           andThen (Reorganize opts env t) (\<lambda>u. exportMetadataFromServer opts env)) w3 = (x0, w')"
          by simp
        then show ?thesis
        proof (cases rule: andThenE)
          case (stop x)
          with r c1(1) c2(1) c3(1) v show ?thesis by (auto intro: state)
        next
          case c4: (continue u4 w4)
          from c4(2) show ?thesis
          proof (cases rule: andThenE)
            case (stop x)
            with r c1(1) c2(1) c3(1) c4(1) v show ?thesis by (auto intro: reorg)
          next
            case c5: (continue u5 w5)
            with r c1(1) c2(1) c3(1) c4(1) v show ?thesis by (auto intro: export)
          qed
        qed
      qed
    qed
  qed
qed

lemma UpdateProjectV3_summary:
  assumes "UpdateProjectV3 opts env w = (r, w')"
  shows "summary 0 7 r w w'"
  using assms
proof (cases rule: UpdateProjectV3_cases)
  case pre
  from preChecks_summary [OF pre] show ?thesis
    by (auto intro: summary_weaken)
next
  case (confirm w1)
  from preChecks_summary [OF confirm(1)] have "summary 0 0 None w w1" by simp
  moreover from confirmContinue_summary [OF confirm(2)] have "summary 1 1 r w1 w'" by simp
  ultimately have "summary 0 1 r w w'" by (rule summary_seq) simp_all
  then show ?thesis by (rule summary_weaken) simp_all
next
  case (select w1 w2)
  from preChecks_summary [OF select(1)] have "summary 0 0 None w w1" by simp
  moreover from confirmContinue_summary [OF select(2)] have "summary 1 1 None w1 w2" by simp
  ultimately have "summary 0 1 None w w2" by (rule summary_seq) simp_all
  moreover from selectTargetDatabase_summary [OF select(3)] have "summary 2 2 r w2 w'" by simp
  ultimately have "summary 0 2 r w w'" by (rule summary_seq) simp_all
  then show ?thesis by (rule summary_weaken) simp_all
next
  case (state w1 w2 w3 sources t)
  from preChecks_summary [OF state(1)] have "summary 0 0 None w w1" by simp
  moreover from confirmContinue_summary [OF state(2)] have "summary 1 1 None w1 w2" by simp
  ultimately have "summary 0 1 None w w2" by (rule summary_seq) simp_all
  moreover from selectTargetDatabase_summary [OF state(3)] have "summary 2 2 None w2 w3" by simp
  ultimately have "summary 0 2 None w w3" by (rule summary_seq) simp_all
  moreover from copyingState_summary [OF state(4)] have "summary 3 3 r w3 w'" by simp
  ultimately have "summary 0 3 r w w'" by (rule summary_seq) simp_all
  then show ?thesis by (rule summary_weaken) simp_all
next
  case (reorg w1 w2 w3 w4 sources t)
  from preChecks_summary [OF reorg(1)] have "summary 0 0 None w w1" by simp
  moreover from confirmContinue_summary [OF reorg(2)] have "summary 1 1 None w1 w2" by simp
  ultimately have "summary 0 1 None w w2" by (rule summary_seq) simp_all
  moreover from selectTargetDatabase_summary [OF reorg(3)] have "summary 2 2 None w2 w3" by simp
  ultimately have "summary 0 2 None w w3" by (rule summary_seq) simp_all
  moreover from copyingState_summary [OF reorg(4)] have "summary 3 3 None w3 w4" by simp
  ultimately have "summary 0 3 None w w4" by (rule summary_seq) simp_all
  moreover from Reorganize_summary [OF reorg(5)] have "summary 4 6 r w4 w'" by simp
  ultimately have "summary 0 6 r w w'" by (rule summary_seq) simp_all
  then show ?thesis by (rule summary_weaken) simp_all
next
  case (export w1 w2 w3 w4 w5 sources t x)
  from preChecks_summary [OF export(1)] have "summary 0 0 None w w1" by simp
  moreover from confirmContinue_summary [OF export(2)] have "summary 1 1 None w1 w2" by simp
  ultimately have "summary 0 1 None w w2" by (rule summary_seq) simp_all
  moreover from selectTargetDatabase_summary [OF export(3)] have "summary 2 2 None w2 w3" by simp
  ultimately have "summary 0 2 None w w3" by (rule summary_seq) simp_all
  moreover from copyingState_summary [OF export(4)] have "summary 3 3 None w3 w4" by simp
  ultimately have "summary 0 3 None w w4" by (rule summary_seq) simp_all
  moreover from Reorganize_summary [OF export(5)] have "summary 4 6 None w4 w5" by simp
  ultimately have "summary 0 6 None w w5" by (rule summary_seq) simp_all
  moreover from exportMetadataFromServer_summary [OF export(6)] export(7)
  have "summary 7 7 r w5 w'" by simp
  ultimately show ?thesis by (rule summary_seq) simp_all
qed

lemma in_set_last: "x \<in> set es \<Longrightarrow> x \<notin> set (butlast es) \<Longrightarrow> es \<noteq> [] \<and> last es = x"
  by (cases es rule: rev_cases) auto

lemma sorted_le_last: "sorted (map f es) \<Longrightarrow> x \<in> set es \<Longrightarrow> f x \<le> f (last es)"
  by (cases es rule: rev_cases) (auto simp: sorted_append)

lemma summary_failed_last:
  assumes "summary lo hi r w w'" and "x \<in> set (trace w w')" and "failed x"
  shows "last (trace w w') = x" and "\<exists>e'. r = Some e' \<and> snd x = Some (cause e')"
    and "\<forall>y \<in> set (trace w w'). phase_of (fst y) \<le> phase_of (fst x)"
proof -
  from assms(1) have ok: "ok_trace r (trace w w')"
    and so: "sorted (map (phase_of \<circ> fst) (trace w w'))"
    by (simp_all add: summary_def)
  from ok assms(3) have "x \<notin> set (butlast (trace w w'))"
    by (auto simp: ok_trace_def)
  with assms(2) have l: "trace w w' \<noteq> [] \<and> last (trace w w') = x"
    by (rule in_set_last)
  then show "last (trace w w') = x" by simp
  from ok l assms(3) show "\<exists>e'. r = Some e' \<and> snd x = Some (cause e')"
    by (auto simp: ok_trace_def)
  from sorted_le_last [OF so] l show "\<forall>y \<in> set (trace w w'). phase_of (fst y) \<le> phase_of (fst x)"
    by auto
qed

lemma trace_from_empty: "calls w = [] \<Longrightarrow> trace w w' = calls w'"
  by (simp add: trace_def)

lemma effect_keeps:
  assumes "effect c s = Inr s'" and "phase_of c \<le> 5" and "lookup (fs s) q \<noteq> None"
  shows "lookup (fs s') q \<noteq> None"
proof (cases c)
  case (OpMkdir p)
  with assms show ?thesis
    by (auto simp: mkdir_def lookup_append split: option.splits dest!: put_lookup_keeps [where q = q])
next
  case (OpCopyDir src dst)
  with assms show ?thesis
    by (auto simp: copyDir_def lookup_append split: option.splits node.splits
        dest!: put_lookup_keeps [where q = q])
next
  case (OpCopyFile src dst)
  with assms show ?thesis
    by (auto simp: copyFile_def lookup_append split: option.splits node.splits
        dest!: put_lookup_keeps [where q = q])
qed (use assms in \<open>auto simp: copyMigrationState_def copySettingsState_def split: option.splits list.splits\<close>)

lemma replay_keeps:
  "\<forall>x \<in> set es. phase_of (fst x) \<le> 5 \<Longrightarrow> lookup (fs s) q \<noteq> None
   \<Longrightarrow> lookup (fs (replay es s)) q \<noteq> None"
proof (induction es arbitrary: s)
  case Nil
  then show ?case by simp
next
  case (Cons x es)
  obtain c out where x: "x = (c, out)" by (cases x)
  have "lookup (fs (replay1 x s)) q \<noteq> None"
  proof (cases out)
    case None
    show ?thesis
    proof (cases "effect c s")
      case (Inl e)
      with x None Cons.prems show ?thesis by simp
    next
      case (Inr s')
      with effect_keeps [OF Inr _ Cons.prems(2)] x None Cons.prems(1) show ?thesis by simp
    qed
  next
    case (Some e)
    with x Cons.prems show ?thesis by simp
  qed
  with Cons show ?case by simp
qed

lemmas call_defs = call_def callv_def logged_def Stat_def ReadDir_def Mkdir_def RemoveAll_def
  CopyFileAfero_def CopyDirAfero_def GetInconsistentMetadata_def GetYesNoPrompt_def
  GetSources_def GetSelectPrompt_def WriteConfig_def ExportMetadata_def WriteMetadata_def
  PrepareMigrationsStateStoreHdbTable_def PrepareMigrationsStateStoreCatalog_def
  CopyMigrationState_def PrepareSettingsDriverHdbTable_def PrepareSettingsDriverCatalog_def
  CopySettingsState_def CLICatalogStateGet_def CLICatalogStateSet_def
  mkdir_def removeAll_def copyFile_def copyDir_def writeMetadata_def copyMigrationState_def
  copySettingsState_def

lemmas script_defs = UpdateProjectV3_def andThen_def preChecks_def confirmContinue_def
  selectTargetDatabase_def copyingState_def Reorganize_def copyOldMigrations_def
  generateNewConfigFile_def deleteOldMigrationsAndSeeds_def exportMetadataFromServer_def
  CopyState_def getMigrationDirectoryNames_def getMatchingFilesAndDirs_def getSeedFiles_def
  isHasuraCLIGeneratedMigration_def Base_def

lemmas ex_defs = ex_opts_def ex_env_def ex_world_def ex_catalog_def

lemma surjective_run: "f = (fst f, snd f)"
  by simp

lemma ex_copy_fault_result:
  "fst (UpdateProjectV3 ex_opts ex_env_copy_fault ex_world) =
     Some (Wrap (Wrap (Fault (OpCopyDir [''m'', ''1610000000000_init'']
                                [''m'', ''default'', ''1610000000000_init'']))
                   ''moving 1610000000000_init to /m/default'')
             ''moving migrations to target database directory'')"
  by (simp add: ex_env_copy_fault_def ex_defs script_defs call_defs)

lemma ex_copy_fault_calls:
  "calls (snd (UpdateProjectV3 ex_opts ex_env_copy_fault ex_world)) =
     [(OpGetInconsistentMetadata, None), (OpGetSources, None),
      (OpPrepareMigrationsSrc ''default'', None),
      (OpPrepareMigrationsDst ''default'', None),
      (OpCopyMigrationState ''default'' ''default'', None),
      (OpPrepareSettingsSrc, None), (OpPrepareSettingsDst, None),
      (OpCopySettingsState, None), (OpCatalogGet, None),
      (OpCatalogSet \<lparr>Migrations = [(''default'', [(1610000000000, False)])],
                     Settings = [(''migration_mode'', ''true'')],
                     IsStateCopyCompleted = True\<rparr>, None),
      (OpReadDir [''m''], None), (OpReadDir [''s''], None),
      (OpMkdir [''m'', ''default''], None),
      (OpMkdir [''s'', ''default''], None),
      (OpStat [''m'', ''1610000000000_init''], None),
      (OpCopyDir [''m'', ''1610000000000_init''] [''m'', ''default'', ''1610000000000_init''],
       Some (Fault (OpCopyDir [''m'', ''1610000000000_init'']
                      [''m'', ''default'', ''1610000000000_init''])))]"
  by (simp add: ex_env_copy_fault_def ex_defs script_defs call_defs)

subsection \<open>What the calls leave alone\<close>


lemma effect_config_same:
  "phase_of c \<noteq> 5 \<Longrightarrow> effect c s = Inr s' \<Longrightarrow> config_version s' = config_version s"
  by (cases c)
     (auto simp: mkdir_def removeAll_def copyFile_def copyDir_def writeMetadata_def
        copyMigrationState_def copySettingsState_def split: option.splits list.splits node.splits)

lemma effect_catalog_same:
  "phase_of c \<noteq> 3 \<Longrightarrow> effect c s = Inr s' \<Longrightarrow> catalog s' = catalog s"
  by (cases c)
     (auto simp: mkdir_def removeAll_def copyFile_def copyDir_def writeMetadata_def
        split: option.splits list.splits node.splits)

lemma replay1_cases:
  obtains (same) "replay1 x s = s"
        | (eff) c s' where "x = (c, None)" and "effect c s = Inr s'" and "replay1 x s = s'"
proof (cases x)
  case (Pair c out)
  show ?thesis
  proof (cases out)
    case None
    with Pair same eff show ?thesis by (cases "effect c s") auto
  next
    case (Some e)
    with Pair same show ?thesis by simp
  qed
qed


lemma replay_config_same:
  "\<forall>x \<in> set es. phase_of (fst x) \<noteq> 5 \<Longrightarrow> config_version (replay es s) = config_version s"
proof (induction es arbitrary: s)
  case Nil
  then show ?case by simp
next
  case (Cons x es)
  have "config_version (replay1 x s) = config_version s"
  proof (cases x s rule: replay1_cases)
    case same
    then show ?thesis by simp
  next
    case (eff c s')
    from Cons.prems eff(1) have "phase_of c \<noteq> 5" by simp
    from effect_config_same [OF this eff(2)] eff(3) show ?thesis by simp
  qed
  with Cons show ?case by simp
qed

lemma replay_catalog_same:
  "\<forall>x \<in> set es. phase_of (fst x) \<noteq> 3 \<Longrightarrow> catalog (replay es s) = catalog s"
proof (induction es arbitrary: s)
  case Nil
  then show ?case by simp
next
  case (Cons x es)
  have "catalog (replay1 x s) = catalog s"
  proof (cases x s rule: replay1_cases)
    case same
    then show ?thesis by simp
  next
    case (eff c s')
    from Cons.prems eff(1) have "phase_of c \<noteq> 3" by simp
    from effect_catalog_same [OF this eff(2)] eff(3) show ?thesis by simp
  qed
  with Cons show ?case by simp
qed


lemma summary_trace:
  "summary lo hi r w w' \<Longrightarrow> w' = after (trace w w') w"
  by (simp add: summary_def)

lemma summary_range:
  "summary lo hi r w w' \<Longrightarrow> x \<in> set (trace w w') \<Longrightarrow> lo \<le> phase_of (fst x) \<and> phase_of (fst x) \<le> hi"
  by (simp add: summary_def)

lemma summary_clean:
  "summary lo hi None w w' \<Longrightarrow> x \<in> set (trace w w') \<Longrightarrow> \<not> failed x"
  by (simp add: summary_def)

lemma summary_st: "summary lo hi r w w' \<Longrightarrow> st w' = replay (trace w w') (st w)"
  by (metis st_after summary_trace)

lemma summary_calls: "summary lo hi r w w' \<Longrightarrow> calls w' = calls w @ trace w w'"
  by (metis calls_after summary_trace)

lemma trace_trans:
  assumes "w1 = after (trace w w1) w" and "w2 = after (trace w1 w2) w1"
  shows "trace w w2 = trace w w1 @ trace w1 w2" and "w2 = after (trace w w2) w"
proof -
  have *: "w2 = after (trace w w1 @ trace w1 w2) w"
    using assms after_after by metis
  then show "trace w w2 = trace w w1 @ trace w1 w2"
    by (metis trace_after)
  with * show "w2 = after (trace w w2) w"
    by simp
qed


lemma summary_config_same:
  assumes "summary lo hi r w w'" and "hi < 5 \<or> 5 < lo"
  shows "config_version (st w') = config_version (st w)"
proof -
  have "\<forall>x \<in> set (trace w w'). phase_of (fst x) \<noteq> 5"
  proof
    fix x assume "x \<in> set (trace w w')"
    from summary_range [OF assms(1) this] assms(2) show "phase_of (fst x) \<noteq> 5" by auto
  qed
  then show ?thesis
    using summary_st [OF assms(1)] by (simp add: replay_config_same)
qed

lemma summary_catalog_same:
  assumes "summary lo hi r w w'" and "hi < 3 \<or> 3 < lo"
  shows "catalog (st w') = catalog (st w)"
proof -
  have "\<forall>x \<in> set (trace w w'). phase_of (fst x) \<noteq> 3"
  proof
    fix x assume "x \<in> set (trace w w')"
    from summary_range [OF assms(1) this] assms(2) show "phase_of (fst x) \<noteq> 3" by auto
  qed
  then show ?thesis
    using summary_st [OF assms(1)] by (simp add: replay_catalog_same)
qed

subsection \<open>How a failure comes back\<close>

lemma blame_Nil [simp]: "blame P r []"
  by (simp add: blame_def)

lemma blame_single:
  "blame P r [(c, out)] \<longleftrightarrow> (failed (c, out) \<longrightarrow> (\<exists>e e'. out = Some e \<and> r = Some e' \<and> P c e e'))"
  by (simp add: blame_def)

lemma blame_clean: "\<forall>x \<in> set es. \<not> failed x \<Longrightarrow> blame P r es"
  by (auto simp: blame_def)

lemma blame_append: "\<forall>x \<in> set es1. \<not> failed x \<Longrightarrow> blame P r es2 \<Longrightarrow> blame P r (es1 @ es2)"
  by (cases "es2 = []") (auto simp: blame_def)

lemma blame_mono: "blame P r es \<Longrightarrow> (\<And>c e e'. P c e e' \<Longrightarrow> Q c e e') \<Longrightarrow> blame Q r es"
  unfolding blame_def by blast

lemma blame_seq:
  assumes "summary lo hi None w w1" and "summary lo' hi' r' w1 w2" and "blame P r (trace w1 w2)"
  shows "blame P r (trace w w2)"
proof -
  have "trace w w2 = trace w w1 @ trace w1 w2"
    using summary_trace [OF assms(1)] summary_trace [OF assms(2)] by (rule trace_trans)
  moreover have "\<forall>x \<in> set (trace w w1). \<not> failed x"
    using summary_clean [OF assms(1)] by blast
  ultimately show ?thesis
    using assms(3) by (simp add: blame_append)
qed

lemma call_trace: "call env c w = (r, w') \<Longrightarrow> trace w w' = [(c, r)]"
  by (drule call_after(1)) simp

lemma callv_trace:
  "callv env c f w = (r, w') \<Longrightarrow> (\<And>s. effect c s = Inr s) \<Longrightarrow> trace w w' = [(c, errv r)]"
  by (drule callv_after(1)) simp_all

lemma call_blame: "call env c w = (r, w') \<Longrightarrow> blame (\<lambda>c' e e'. c' = c \<and> e' = e) r (trace w w')"
  by (frule call_trace) (auto simp: blame_single failed_def)

lemma callv_blame:
  "callv env c f w = (r, w') \<Longrightarrow> (\<And>s. effect c s = Inr s)
   \<Longrightarrow> blame (\<lambda>c' e e'. c' = c \<and> e' = e) (errv r) (trace w w')"
  by (frule callv_trace, assumption) (cases r; auto simp: blame_single failed_def)

lemma blame_Wrap:
  "blame (\<lambda>c e e'. P c e e') (Some e0) es
   \<Longrightarrow> blame (\<lambda>c e e'. \<exists>e1. P c e e1 \<and> e' = Wrap e1 label) (Some (Wrap e0 label)) es"
  unfolding blame_def by auto

lemma removeDirectories_blame:
  "removeDirectories env parent ds w = (r, w')
   \<Longrightarrow> blame (\<lambda>c e e'. (\<exists>d \<in> set ds. c = OpRemoveAll (parent @ [d])) \<and> e' = e) r (trace w w')"
proof (induction ds arbitrary: w)
  case Nil
  then show ?case by simp
next
  case (Cons d ds)
  obtain r1 w1 where 1: "RemoveAll env (parent @ [d]) w = (r1, w1)"
    by (cases "RemoveAll env (parent @ [d]) w")
  show ?case
  proof (cases r1)
    case None
    with 1 Cons.prems have rest: "removeDirectories env parent ds w1 = (r, w')"
      by simp
    have "blame (\<lambda>c e e'. (\<exists>d \<in> set (d # ds). c = OpRemoveAll (parent @ [d])) \<and> e' = e) r (trace w1 w')"
      using Cons.IH [OF rest] by (rule blame_mono) auto
    moreover have "summary 6 6 None w w1"
      using RemoveAll_summary [OF 1] None by simp
    ultimately show ?thesis
      using removeDirectories_summary [OF rest] by (blast intro: blame_seq)
  next
    case (Some err)
    with 1 Cons.prems have "r = r1" and "w' = w1"
      by simp_all
    with call_blame [OF 1 [unfolded RemoveAll_def]] show ?thesis
      by (auto intro: blame_mono)
  qed
qed

lemma copyFiles_blame:
  "copyFiles env files parent target w = (r, w')
   \<Longrightarrow> blame (\<lambda>c e e'. \<exists>d \<in> set files. c = OpCopyFile (parent @ [d]) (target @ [d])
                  \<and> e' = Wrap e (''moving '' @ d @ '' to '' @ path_string target)) r (trace w w')"
proof (induction files arbitrary: w)
  case Nil
  then show ?case by simp
next
  case (Cons d ds)
  obtain r1 w1 where 1: "CopyFileAfero env (parent @ [d]) (target @ [d]) w = (r1, w1)"
    by (cases "CopyFileAfero env (parent @ [d]) (target @ [d]) w")
  show ?case
  proof (cases r1)
    case None
    with 1 Cons.prems have rest: "copyFiles env ds parent target w1 = (r, w')"
      by simp
    have "blame (\<lambda>c e e'. \<exists>d \<in> set (d # ds). c = OpCopyFile (parent @ [d]) (target @ [d])
                  \<and> e' = Wrap e (''moving '' @ d @ '' to '' @ path_string target)) r (trace w1 w')"
      using Cons.IH [OF rest] by (rule blame_mono) auto
    moreover have "summary 4 4 None w w1"
      using CopyFileAfero_summary [OF 1] None by simp
    ultimately show ?thesis
      using copyFiles_summary [OF rest] by (blast intro: blame_seq)
  next
    case (Some err)
    with 1 Cons.prems
    have r: "r = Some (Wrap err (''moving '' @ d @ '' to '' @ path_string target))" and "w' = w1"
      by simp_all
    moreover have "trace w w1 = [(OpCopyFile (parent @ [d]) (target @ [d]), Some err)]"
      using call_trace [OF 1 [unfolded CopyFileAfero_def]] Some by simp
    ultimately show ?thesis
      by (simp add: blame_single)
  qed
qed

lemma copyMigrations_blame:
  "copyMigrations env dirs parent target w = (r, w')
   \<Longrightarrow> blame (\<lambda>c e e'. \<exists>d \<in> set dirs.
                  (c = OpCopyDir (parent @ [d]) (target @ [d]) \<or> c = OpCopyFile (parent @ [d]) (target @ [d]))
                  \<and> e' = Wrap e (''moving '' @ d @ '' to '' @ path_string target)) r (trace w w')"
proof (induction dirs arbitrary: w)
  case Nil
  then show ?case by simp
next
  case (Cons d ds)
  let ?P = "\<lambda>ds c e e'. \<exists>d \<in> set ds.
              (c = OpCopyDir (parent @ [d]) (target @ [d]) \<or> c = OpCopyFile (parent @ [d]) (target @ [d]))
              \<and> e' = Wrap e (''moving '' @ d @ '' to '' @ path_string target)"
  obtain f w1 where 1: "Stat env (parent @ [d]) w = (f, w1)"
    by (cases "Stat env (parent @ [d]) w")
  have s1: "summary 4 4 None w w1"
    using 1 by (rule Stat_summary)
  show ?case
  proof (cases f)
    case (Inl ignored)
    with 1 Cons.prems have rest: "copyMigrations env ds parent target w1 = (r, w')"
      by simp
    have "blame (?P (d # ds)) r (trace w1 w')"
      using Cons.IH [OF rest] by (rule blame_mono) auto
    with s1 copyMigrations_summary [OF rest] show ?thesis
      by (blast intro: blame_seq)
  next
    case (Inr isdir)
    define cp where "cp = (if isdir then CopyDirAfero env (parent @ [d]) (target @ [d]) w1
                           else CopyFileAfero env (parent @ [d]) (target @ [d]) w1)"
    define c0 where "c0 = (if isdir then OpCopyDir (parent @ [d]) (target @ [d])
                           else OpCopyFile (parent @ [d]) (target @ [d]))"
    obtain r2 w2 where 2: "cp = (r2, w2)"
      by (cases cp)
    have s2: "summary 4 4 r2 w1 w2"
      using 2 unfolding cp_def
      by (auto split: if_splits intro: CopyDirAfero_summary CopyFileAfero_summary)
    have t2: "trace w1 w2 = [(c0, r2)]"
      using 2 unfolding cp_def c0_def CopyDirAfero_def CopyFileAfero_def
      by (auto split: if_splits dest: call_trace)
    show ?thesis
    proof (cases r2)
      case None
      with 1 2 Inr Cons.prems have rest: "copyMigrations env ds parent target w2 = (r, w')"
        by (simp add: cp_def)
      have "blame (?P (d # ds)) r (trace w2 w')"
        using Cons.IH [OF rest] by (rule blame_mono) auto
      moreover have "summary 4 4 None w w2"
        using s1 s2 None by (blast intro: summary_then)
      ultimately show ?thesis
        using copyMigrations_summary [OF rest] by (blast intro: blame_seq)
    next
      case (Some err)
      with 1 2 Inr Cons.prems
      have r: "r = Some (Wrap err (''moving '' @ d @ '' to '' @ path_string target))" and w': "w' = w2"
        by (simp_all add: cp_def)
      have "blame (?P (d # ds)) r (trace w1 w2)"
        unfolding t2 r Some by (auto simp: blame_single c0_def)
      with s1 s2 w' show ?thesis
        by (blast intro: blame_seq)
    qed
  qed
qed

lemma blame_seq':
  assumes "summary lo hi None w w1" and "w2 = after (trace w1 w2) w1" and "blame P r (trace w1 w2)"
  shows "blame P r (trace w w2)"
proof -
  have "trace w w2 = trace w w1 @ trace w1 w2"
    using summary_trace [OF assms(1)] assms(2) by (rule trace_trans)
  moreover have "\<forall>x \<in> set (trace w w1). \<not> failed x"
    using summary_clean [OF assms(1)] by blast
  ultimately show ?thesis
    using assms(3) by (simp add: blame_append)
qed

lemma blame_of_clean: "summary lo hi None w w' \<Longrightarrow> blame P r (trace w w')"
  by (rule blame_clean) (blast dest: summary_clean)

lemma blame_last_call:
  assumes "summary lo hi None w w1" and "call env c w1 = (Some err, w')" and "P c err e'"
  shows "blame P (Some e') (trace w w')"
proof -
  have t: "trace w1 w' = [(c, Some err)]"
    using assms(2) by (rule call_trace)
  have "w' = after (trace w1 w') w1"
    using call_after(1) [OF assms(2)] t by simp
  moreover have "blame P (Some e') (trace w1 w')"
    unfolding t using assms(3) by (simp add: blame_single)
  ultimately show ?thesis
    using assms(1) by (blast intro: blame_seq')
qed

lemma blame_last_callv:
  assumes "summary lo hi None w w1" and "callv env c f w1 = (Inl err, w')"
    and "\<And>s. effect c s = Inr s" and "P c err e'"
  shows "blame P (Some e') (trace w w')"
proof -
  have t: "trace w1 w' = [(c, Some err)]"
    using callv_trace [OF assms(2,3)] by simp
  have "w' = after (trace w1 w') w1"
    using callv_after(1) [OF assms(2,3)] t by simp
  moreover have "blame P (Some e') (trace w1 w')"
    unfolding t using assms(4) by (simp add: blame_single)
  ultimately show ?thesis
    using assms(1) by (blast intro: blame_seq')
qed

lemma CopyState_blame:
  assumes "CopyState env a b w = (r, w')"
  shows "blame (returned_as opts) r (trace w w')"
  using assms unfolding CopyState_def
proof (cases rule: step_option)
  case (stop err)
  have "summary 3 3 None w w" by simp
  from blame_last_call [OF this stop(1) [unfolded PrepareMigrationsStateStoreHdbTable_def]] stop(2)
  show ?thesis by simp
next
  case (go w1)
  note s1 = PrepareMigrationsStateStoreHdbTable_summary [OF go(1)]
  from go(2) show ?thesis
  proof (cases rule: step_option)
    case (stop err)
    from blame_last_call [OF s1 stop(1) [unfolded PrepareMigrationsStateStoreCatalog_def]] stop(2)
    show ?thesis by simp
  next
    case (go w2)
    note s2 = summary_then [OF s1 PrepareMigrationsStateStoreCatalog_summary [OF go(1)]]
    from go(2) show ?thesis
    proof (cases rule: step_option)
      case (stop err)
      from blame_last_call [OF s2 stop(1) [unfolded CopyMigrationState_def]] stop(2)
      show ?thesis by simp
    next
      case (go w3)
      note s3 = summary_then [OF s2 CopyMigrationState_summary [OF go(1)]]
      from go(2) show ?thesis
      proof (cases rule: step_option)
        case (stop err)
        from blame_last_call [OF s3 stop(1) [unfolded PrepareSettingsDriverHdbTable_def]] stop(2)
        show ?thesis by simp
      next
        case (go w4)
        note s4 = summary_then [OF s3 PrepareSettingsDriverHdbTable_summary [OF go(1)]]
        from go(2) show ?thesis
        proof (cases rule: step_option)
          case (stop err)
          from blame_last_call [OF s4 stop(1) [unfolded PrepareSettingsDriverCatalog_def]] stop(2)
          show ?thesis by simp
        next
          case (go w5)
          note s5 = summary_then [OF s4 PrepareSettingsDriverCatalog_summary [OF go(1)]]
          from go(2) show ?thesis
          proof (cases rule: step_option)
            case (stop err)
            from blame_last_call [OF s5 stop(1) [unfolded CopySettingsState_def]] stop(2)
            show ?thesis by simp
          next
            case (go w6)
            note s6 = summary_then [OF s5 CopySettingsState_summary [OF go(1)]]
            from go(2) show ?thesis
            proof (cases rule: step_sum)
              case (stop err)
              from blame_last_callv [OF s6 stop(1) [unfolded CLICatalogStateGet_def]] stop(2)
              show ?thesis by simp
            next
              case (go cliState w7)
              from CLICatalogStateGet_summary [OF go(1)]
              have "summary 3 3 None w6 w7" by simp
              note s7 = summary_then [OF s6 this]
              from go(2) show ?thesis
              proof (cases rule: step_option)
                case (stop err)
                from blame_last_call [OF s7 stop(1) [unfolded CLICatalogStateSet_def]] stop(2)
                show ?thesis by simp
              next
                case (go w8)
                from CLICatalogStateSet_summary [OF go(1)] s7 go(2)
                have "summary 3 3 None w w'" by (auto intro: summary_then)
                then show ?thesis by (rule blame_of_clean)
              qed
            qed
          qed
        qed
      qed
    qed
  qed
qed

lemma getMigrationDirectoryNames_Inl:
  assumes "getMigrationDirectoryNames env p w = (Inl err, w')"
  shows "callv env (OpReadDir p)
           (\<lambda>s. case lookup (fs s) p of
                  None \<Rightarrow> Inl (ErrNotExist p)
                | Some (File c) \<Rightarrow> Inl (ErrNotDir p)
                | Some (Dir es) \<Rightarrow> Inr (map (\<lambda>(name, n). (name, IsDir n)) es)) w = (Inl err, w')"
proof -
  obtain r1 w1 where 1: "ReadDir env p w = (r1, w1)"
    by (cases "ReadDir env p w")
  show ?thesis
  proof (cases r1)
    case (Inl e)
    with 1 assms show ?thesis
      by (simp add: getMigrationDirectoryNames_def getMatchingFilesAndDirs_def ReadDir_def)
  next
    case (Inr dirs)
    with 1 assms show ?thesis
      by (simp add: getMigrationDirectoryNames_def getMatchingFilesAndDirs_def matching_loop_error)
  qed
qed

lemma getSeedFiles_Inl:
  assumes "getSeedFiles env p w = (Inl err, w')"
  shows "callv env (OpReadDir p)
           (\<lambda>s. case lookup (fs s) p of
                  None \<Rightarrow> Inl (ErrNotExist p)
                | Some (File c) \<Rightarrow> Inl (ErrNotDir p)
                | Some (Dir es) \<Rightarrow> Inr (map (\<lambda>(name, n). (name, IsDir n)) es)) w = (Inl err, w')"
proof -
  obtain r1 w1 where 1: "ReadDir env p w = (r1, w1)"
    by (cases "ReadDir env p w")
  with assms show ?thesis
    by (cases r1) (simp_all add: getSeedFiles_def ReadDir_def)
qed

lemma preChecks_blame:
  assumes "preChecks opts env w = (r, w')"
  shows "blame (returned_as opts) (returned r) (trace w w')"
proof (cases "config_version (st w) \<noteq> V2 \<and> \<not> MoveStateOnly opts")
  case True
  with assms show ?thesis by (simp add: preChecks_def)
next
  case a: False
  show ?thesis
  proof (cases "HasMetadataV3 env")
    case False
    with a assms show ?thesis by (auto simp: preChecks_def)
  next
    case True
    with a assms have
      "(case GetInconsistentMetadata env w of
          (Inl err, w1) \<Rightarrow> (Inl (Some (Wrap err ''determing server metadata inconsistency'')), w1)
        | (Inr c, w1) \<Rightarrow>
            if \<not> c then (Inl (Some (Msg ''cannot continue: metadata is inconsistent on the server'')), w1)
            else (Inr (), w1)) = (r, w')"
      by (auto simp: preChecks_def)
    then show ?thesis
    proof (cases rule: step_sum)
      case (stop err)
      have "summary 0 0 None w w" by simp
      from blame_last_callv [OF this stop(1) [unfolded GetInconsistentMetadata_def]] stop(2)
      show ?thesis by simp
    next
      case (go c w1)
      from GetInconsistentMetadata_summary [OF go(1)] have "summary 0 0 None w w1" by simp
      moreover from go(2) have "w' = w1" by (auto split: if_splits)
      ultimately show ?thesis by (auto intro: blame_of_clean)
    qed
  qed
qed

lemma confirmContinue_blame:
  assumes "confirmContinue opts env w = (r, w')"
  shows "blame (returned_as opts) (returned r) (trace w w')"
proof (cases "Force opts")
  case True
  with assms show ?thesis by (auto simp: confirmContinue_def)
next
  case False
  with assms have
    "(case GetYesNoPrompt env ''continue?'' w of
        (Inl err, w1) \<Rightarrow> (Inl (Some err), w1)
      | (Inr response, w1) \<Rightarrow> if response = ''n'' then (Inl None, w1) else (Inr (), w1)) = (r, w')"
    by (simp add: confirmContinue_def)
  then show ?thesis
  proof (cases rule: step_sum)
    case (stop err)
    have "summary 1 1 None w w" by simp
    from blame_last_callv [OF this stop(1) [unfolded GetYesNoPrompt_def]] stop(2)
    show ?thesis by simp
  next
    case (go v w1)
    from GetYesNoPrompt_summary [OF go(1)] have "summary 1 1 None w w1" by simp
    moreover from go(2) have "w' = w1" by (auto split: if_splits)
    ultimately show ?thesis by (auto intro: blame_of_clean)
  qed
qed

lemma selectTargetDatabase_blame:
  assumes "selectTargetDatabase opts env w = (r, w')"
  shows "blame (returned_as opts) (returned r) (trace w w')"
  using assms unfolding selectTargetDatabase_def
proof (cases rule: step_sum)
  case (stop err)
  have "summary 2 2 None w w" by simp
  from blame_last_callv [OF this stop(1) [unfolded GetSources_def]] stop(2)
  show ?thesis by simp
next
  case (go sources w1)
  from GetSources_summary [OF go(1)] have s1: "summary 2 2 None w w1" by simp
  show ?thesis
  proof (cases "length (TargetDatabase opts) = 0 \<and> \<not> (length sources = 1 \<and> sources ! 0 = ''default'')
                \<and> length sources > 0")
    case False
    with go(2) have "w' = w1" by (auto split: if_splits)
    with s1 show ?thesis by (auto intro: blame_of_clean)
  next
    case True
    with go(2) have
      "(case GetSelectPrompt env ''what database does this current migrations / seeds belong to?'' sources w1 of
          (Inl err, w2) \<Rightarrow> (Inl (Some err), w2)
        | (Inr targetDatabase, w2) \<Rightarrow> (Inr (sources, targetDatabase), w2)) = (r, w')"
      by auto
    then show ?thesis
    proof (cases rule: step_sum)
      case (stop err)
      from blame_last_callv [OF s1 stop(1) [unfolded GetSelectPrompt_def]] stop(2)
      show ?thesis by simp
    next
      case (go v w2)
      with GetSelectPrompt_summary [OF go(1)] s1 have "summary 2 2 None w w'"
        by (auto intro: summary_then)
      then show ?thesis by (rule blame_of_clean)
    qed
  qed
qed

lemma copyingState_blame:
  assumes "copyingState opts env sources t w = (r, w')"
  shows "blame (returned_as opts) (returned r) (trace w w')"
proof (cases "length sources \<ge> 1")
  case False
  with assms show ?thesis by (auto simp: copyingState_def)
next
  case True
  with assms have
    "(case CopyState env t t w of
        (None, w1) \<Rightarrow> if MoveStateOnly opts then (Inl None, w1) else (Inr (), w1)
      | (Some err, w1) \<Rightarrow> (Inl (Some err), w1)) = (r, w')"
    by (simp add: copyingState_def)
  then show ?thesis
  proof (cases rule: step_option)
    case (stop err)
    with CopyState_blame [OF stop(1)] show ?thesis by simp
  next
    case (go w1)
    from CopyState_summary [OF go(1)] have "summary 3 3 None w w1" .
    moreover from go(2) have "w' = w1" by (auto split: if_splits)
    ultimately show ?thesis by (auto intro: blame_of_clean)
  qed
qed

lemma generateNewConfigFile_blame:
  assumes "generateNewConfigFile env w = (r, w')"
  shows "blame (returned_as opts) (returned r) (trace w w')"
  using assms unfolding generateNewConfigFile_def
proof (cases rule: step_option)
  case (stop err)
  have "summary 5 5 None w w" by simp
  from blame_last_call [OF this stop(1) [unfolded WriteConfig_def]] stop(2)
  show ?thesis by simp
next
  case (go w1)
  with WriteConfig_summary [OF go(1)] have "summary 5 5 None w w'" by auto
  then show ?thesis by (rule blame_of_clean)
qed

lemma exportMetadataFromServer_blame:
  assumes "exportMetadataFromServer opts env w = (r, w')"
  shows "blame (returned_as opts) (returned r) (trace w w')"
  using assms unfolding exportMetadataFromServer_def
proof (cases rule: step_sum)
  case (stop err)
  have "summary 7 7 None w w" by simp
  from blame_last_callv [OF this stop(1) [unfolded ExportMetadata_def]] stop(2)
  show ?thesis by simp
next
  case (go files w1)
  from ExportMetadata_summary [OF go(1)] have s1: "summary 7 7 None w w1" by simp
  from go(2) show ?thesis
  proof (cases rule: step_option)
    case (stop err)
    from blame_last_call [OF s1 stop(1) [unfolded WriteMetadata_def]] stop(2)
    show ?thesis by simp
  next
    case (go w2)
    with WriteMetadata_summary [OF go(1)] s1 have "summary 7 7 None w w'"
      by (auto intro: summary_then)
    then show ?thesis by (rule blame_of_clean)
  qed
qed

lemma deleteOldMigrationsAndSeeds_blame:
  assumes "deleteOldMigrationsAndSeeds opts env migs seeds w = (r, w')"
  shows "blame (returned_as opts) (returned r) (trace w w')"
  using assms unfolding deleteOldMigrationsAndSeeds_def
proof (cases rule: step_option)
  case (stop err)
  have "blame (returned_as opts) (Some (Wrap err ''removing up original migrations'')) (trace w w')"
    using blame_Wrap [OF removeDirectories_blame [OF stop(1)]]
    by (rule blame_mono) auto
  with stop(2) show ?thesis by simp
next
  case (go w1)
  note s1 = removeDirectories_summary [OF go(1)]
  from go(2) show ?thesis
  proof (cases rule: step_option)
    case (stop err)
    have "blame (returned_as opts) (Some (Wrap err ''removing up original migrations'')) (trace w1 w')"
      using blame_Wrap [OF removeDirectories_blame [OF stop(1)]]
      by (rule blame_mono) auto
    with stop(2) s1 removeDirectories_summary [OF stop(1)] show ?thesis
      by (auto intro: blame_seq)
  next
    case (go w2)
    note s2 = summary_then [OF s1 removeDirectories_summary [OF go(1)]]
    from go(2) show ?thesis
    proof (cases rule: step_option)
      case (stop err)
      have "blame (returned_as opts) (Some err) (trace w2 w')"
        using removeDirectories_blame [OF stop(1)]
        by (rule blame_mono) auto
      with stop(2) s2 removeDirectories_summary [OF stop(1)] show ?thesis
        by (auto intro: blame_seq)
    next
      case (go w3)
      with removeDirectories_summary [OF go(1)] s2 have "summary 6 6 None w w'"
        by (auto intro: summary_then)
      then show ?thesis by (rule blame_of_clean)
    qed
  qed
qed

lemma copyOldMigrations_blame:
  assumes "copyOldMigrations opts env t w = (r, w')"
  shows "blame (returned_as opts) (returned r) (trace w w')"
  using assms unfolding copyOldMigrations_def Let_def
proof (cases rule: step_sum)
  case (stop err)
  have "summary 4 4 None w w" by simp
  from blame_last_callv [OF this getMigrationDirectoryNames_Inl [OF stop(1)]] stop(2)
  show ?thesis by simp
next
  case (go migs w1)
  from getMigrationDirectoryNames_summary [OF go(1)] have s1: "summary 4 4 None w w1" by simp
  from go(2) show ?thesis
  proof (cases rule: step_sum)
    case (stop err)
    from blame_last_callv [OF s1 getSeedFiles_Inl [OF stop(1)]] stop(2)
    show ?thesis by simp
  next
    case (go seeds w2)
    from getSeedFiles_summary [OF go(1)] have "summary 4 4 None w1 w2" by simp
    note s2 = summary_then [OF s1 this]
    from go(2) obtain d1 w3 where m1: "Mkdir env (MigrationsAbsDirectoryPath opts @ [t]) w2 = (d1, w3)"
      and k3: "(case Mkdir env (SeedsAbsDirectoryPath opts @ [t]) w3 of
                 (dropped2, w4) \<Rightarrow>
                   (case copyMigrations env migs (MigrationsAbsDirectoryPath opts)
                           (MigrationsAbsDirectoryPath opts @ [t]) w4 of
                      (None, w5) \<Rightarrow>
                        (case copyFiles env seeds (SeedsAbsDirectoryPath opts)
                                (SeedsAbsDirectoryPath opts @ [t]) w5 of
                           (None, w6) \<Rightarrow> (Inr (migs, seeds), w6)
                         | (Some err, w6) \<Rightarrow>
                             (Inl (Some (Wrap err ''moving seeds to target database directory'')), w6))
                    | (Some err, w5) \<Rightarrow>
                        (Inl (Some (Wrap err ''moving migrations to target database directory'')), w5)))
               = (r, w')"
      by (rule step_any)
    note s3 = summary_then [OF s2 Mkdir_summary [OF m1]]
    from k3 obtain d2 w4 where m2: "Mkdir env (SeedsAbsDirectoryPath opts @ [t]) w3 = (d2, w4)"
      and k4: "(case copyMigrations env migs (MigrationsAbsDirectoryPath opts)
                           (MigrationsAbsDirectoryPath opts @ [t]) w4 of
                      (None, w5) \<Rightarrow>
                        (case copyFiles env seeds (SeedsAbsDirectoryPath opts)
                                (SeedsAbsDirectoryPath opts @ [t]) w5 of
                           (None, w6) \<Rightarrow> (Inr (migs, seeds), w6)
                         | (Some err, w6) \<Rightarrow>
                             (Inl (Some (Wrap err ''moving seeds to target database directory'')), w6))
                    | (Some err, w5) \<Rightarrow>
                        (Inl (Some (Wrap err ''moving migrations to target database directory'')), w5))
               = (r, w')"
      by (rule step_any)
    note s4 = summary_then [OF s3 Mkdir_summary [OF m2]]
    from k4 show ?thesis
    proof (cases rule: step_option)
      case (stop err)
      have "blame (returned_as opts)
              (Some (Wrap err ''moving migrations to target database directory'')) (trace w4 w')"
        using blame_Wrap [OF copyMigrations_blame [OF stop(1)]]
        by (rule blame_mono) (auto simp: butlast_append)
      with stop(2) s4 copyMigrations_summary [OF stop(1)] show ?thesis
        by (auto intro: blame_seq)
    next
      case (go w5)
      note s5 = summary_then [OF s4 copyMigrations_summary [OF go(1)]]
      from go(2) show ?thesis
      proof (cases rule: step_option)
        case (stop err)
        have "blame (returned_as opts)
                (Some (Wrap err ''moving seeds to target database directory'')) (trace w5 w')"
          using blame_Wrap [OF copyFiles_blame [OF stop(1)]]
          by (rule blame_mono) (auto simp: butlast_append)
        with stop(2) s5 copyFiles_summary [OF stop(1)] show ?thesis
          by (auto intro: blame_seq)
      next
        case (go w6)
        with copyFiles_summary [OF go(1)] s5 have "summary 4 4 None w w'"
          by (auto intro: summary_then)
        then show ?thesis by (rule blame_of_clean)
      qed
    qed
  qed
qed

lemma Reorganize_blame:
  assumes "Reorganize opts env t w = (r, w')"
  shows "blame (returned_as opts) (returned r) (trace w w')"
  using assms
proof (cases rule: Reorganize_cases)
  case (copy x)
  with copyOldMigrations_blame [OF copy(1)] show ?thesis by simp
next
  case (config migs seeds w1 x)
  from copyOldMigrations_summary [OF config(1)] have "summary 4 4 None w w1" by simp
  with generateNewConfigFile_blame [OF config(2)] generateNewConfigFile_summary [OF config(2)] config(3)
  show ?thesis by (auto intro: blame_seq)
next
  case (delete migs seeds w1 w2)
  from copyOldMigrations_summary [OF delete(1)] have "summary 4 4 None w w1" by simp
  moreover from generateNewConfigFile_summary [OF delete(2)]
  have "summary 5 5 None w1 w2" by simp
  ultimately have "summary 4 5 None w w2"
    by (rule summary_seq) simp_all
  with deleteOldMigrationsAndSeeds_blame [OF delete(3)] deleteOldMigrationsAndSeeds_summary [OF delete(3)]
  show ?thesis by (auto intro: blame_seq)
qed

subsection \<open>The run up to a phase\<close>

lemma prefix1: "preChecks opts env w = (Inr u, w1) \<Longrightarrow> summary 0 0 None w w1"
  by (drule preChecks_summary) simp

lemma prefix2:
  assumes "preChecks opts env w = (Inr u, w1)" and "confirmContinue opts env w1 = (Inr u', w2)"
  shows "summary 0 1 None w w2"
proof -
  from confirmContinue_summary [OF assms(2)] have "summary 1 1 None w1 w2" by simp
  with prefix1 [OF assms(1)] show ?thesis by (rule summary_seq) simp_all
qed

lemma prefix3:
  assumes "preChecks opts env w = (Inr u, w1)" and "confirmContinue opts env w1 = (Inr u', w2)"
    and "selectTargetDatabase opts env w2 = (Inr v, w3)"
  shows "summary 0 2 None w w3"
proof -
  from selectTargetDatabase_summary [OF assms(3)] have "summary 2 2 None w2 w3" by simp
  with prefix2 [OF assms(1,2)] show ?thesis by (rule summary_seq) simp_all
qed

lemma prefix4:
  assumes "preChecks opts env w = (Inr u, w1)" and "confirmContinue opts env w1 = (Inr u', w2)"
    and "selectTargetDatabase opts env w2 = (Inr v, w3)"
    and "copyingState opts env sources t w3 = (Inr u'', w4)"
  shows "summary 0 3 None w w4"
proof -
  from copyingState_summary [OF assms(4)] have "summary 3 3 None w3 w4" by simp
  with prefix3 [OF assms(1,2,3)] show ?thesis by (rule summary_seq) simp_all
qed

lemma prefix5:
  assumes "preChecks opts env w = (Inr u, w1)" and "confirmContinue opts env w1 = (Inr u', w2)"
    and "selectTargetDatabase opts env w2 = (Inr v, w3)"
    and "copyingState opts env sources t w3 = (Inr u'', w4)"
    and "Reorganize opts env t' w4 = (Inr u''', w5)"
  shows "summary 0 6 None w w5"
proof -
  from Reorganize_summary [OF assms(5)] have "summary 4 6 None w4 w5" by simp
  with prefix4 [OF assms(1,2,3,4)] show ?thesis by (rule summary_seq) simp_all
qed

lemma UpdateProjectV3_blame:
  assumes "UpdateProjectV3 opts env w = (r, w')"
  shows "blame (returned_as opts) r (trace w w')"
  using assms
proof (cases rule: UpdateProjectV3_cases)
  case pre
  from preChecks_blame [OF pre] show ?thesis by simp
next
  case (confirm w1)
  from confirmContinue_blame [OF confirm(2)] confirmContinue_summary [OF confirm(2)]
    prefix1 [OF confirm(1)]
  show ?thesis by (auto intro: blame_seq)
next
  case (select w1 w2)
  from selectTargetDatabase_blame [OF select(3)] selectTargetDatabase_summary [OF select(3)]
    prefix2 [OF select(1,2)]
  show ?thesis by (auto intro: blame_seq)
next
  case (state w1 w2 w3 sources t)
  from copyingState_blame [OF state(4)] copyingState_summary [OF state(4)]
    prefix3 [OF state(1,2,3)]
  show ?thesis by (auto intro: blame_seq)
next
  case (reorg w1 w2 w3 w4 sources t)
  from Reorganize_blame [OF reorg(5)] Reorganize_summary [OF reorg(5)]
    prefix4 [OF reorg(1,2,3,4)]
  show ?thesis by (auto intro: blame_seq)
next
  case (export w1 w2 w3 w4 w5 sources t x)
  from exportMetadataFromServer_blame [OF export(6)] exportMetadataFromServer_summary [OF export(6)]
    prefix5 [OF export(1,2,3,4,5)] export(7)
  show ?thesis by (auto intro: blame_seq)
qed

subsection \<open>The calls of the parts, one by one\<close>

lemma call_None:
  assumes "call env c w = (None, w')"
  shows "w' = after [(c, None)] w" and "effect c (st w) = Inr (st w')" and "c \<notin> faults env"
  using call_after(1) [OF assms] call_after(2) [OF assms] by simp_all

lemma call_Some:
  assumes "call env c w = (Some e, w')"
  shows "w' = after [(c, Some e)] w"
  using call_after(1) [OF assms] by simp

lemma CopyState_trace:
  assumes "CopyState env a b w = (r, w')"
  shows "(\<exists>out rest. trace w w' = (OpPrepareMigrationsSrc a, out) # rest)
         \<and> (r = None \<longrightarrow>
              trace w w' =
                [(OpPrepareMigrationsSrc a, None), (OpPrepareMigrationsDst b, None),
                 (OpCopyMigrationState a b, None), (OpPrepareSettingsSrc, None),
                 (OpPrepareSettingsDst, None), (OpCopySettingsState, None), (OpCatalogGet, None),
                 (OpCatalogSet (catalog (st w')), None)]
              \<and> IsStateCopyCompleted (catalog (st w')))
         \<and> (r \<noteq> None \<longrightarrow> (\<forall>c. (OpCatalogSet c, None) \<notin> set (trace w w')))"
  using assms unfolding CopyState_def
proof (cases rule: step_option)
  case (stop err)
  from call_Some [OF stop(1) [unfolded PrepareMigrationsStateStoreHdbTable_def]] stop(2)
  show ?thesis by simp
next
  case (go w1)
  from call_None(1) [OF go(1) [unfolded PrepareMigrationsStateStoreHdbTable_def]]
  have w1: "w1 = after [(OpPrepareMigrationsSrc a, None)] w" .
  from go(2) show ?thesis
  proof (cases rule: step_option)
    case (stop err)
    from call_Some [OF stop(1) [unfolded PrepareMigrationsStateStoreCatalog_def]] stop(2) w1
    show ?thesis by simp
  next
    case (go w2)
    from call_None(1) [OF go(1) [unfolded PrepareMigrationsStateStoreCatalog_def]] w1
    have w2: "w2 = after [(OpPrepareMigrationsSrc a, None), (OpPrepareMigrationsDst b, None)] w"
      by simp
    from go(2) show ?thesis
    proof (cases rule: step_option)
      case (stop err)
      from call_Some [OF stop(1) [unfolded CopyMigrationState_def]] stop(2) w2
      show ?thesis by simp
    next
      case (go w3)
      from call_None(1) [OF go(1) [unfolded CopyMigrationState_def]] w2
      have w3: "w3 = after [(OpPrepareMigrationsSrc a, None), (OpPrepareMigrationsDst b, None),
                            (OpCopyMigrationState a b, None)] w"
        by simp
      from go(2) show ?thesis
      proof (cases rule: step_option)
        case (stop err)
        from call_Some [OF stop(1) [unfolded PrepareSettingsDriverHdbTable_def]] stop(2) w3
        show ?thesis by simp
      next
        case (go w4)
        from call_None(1) [OF go(1) [unfolded PrepareSettingsDriverHdbTable_def]] w3
        have w4: "w4 = after [(OpPrepareMigrationsSrc a, None), (OpPrepareMigrationsDst b, None),
                              (OpCopyMigrationState a b, None), (OpPrepareSettingsSrc, None)] w"
          by simp
        from go(2) show ?thesis
        proof (cases rule: step_option)
          case (stop err)
          from call_Some [OF stop(1) [unfolded PrepareSettingsDriverCatalog_def]] stop(2) w4
          show ?thesis by simp
        next
          case (go w5)
          from call_None(1) [OF go(1) [unfolded PrepareSettingsDriverCatalog_def]] w4
          have w5: "w5 = after [(OpPrepareMigrationsSrc a, None), (OpPrepareMigrationsDst b, None),
                                (OpCopyMigrationState a b, None), (OpPrepareSettingsSrc, None),
                                (OpPrepareSettingsDst, None)] w"
            by simp
          from go(2) show ?thesis
          proof (cases rule: step_option)
            case (stop err)
            from call_Some [OF stop(1) [unfolded CopySettingsState_def]] stop(2) w5
            show ?thesis by simp
          next
            case (go w6)
            from call_None(1) [OF go(1) [unfolded CopySettingsState_def]] w5
            have w6: "w6 = after [(OpPrepareMigrationsSrc a, None), (OpPrepareMigrationsDst b, None),
                                  (OpCopyMigrationState a b, None), (OpPrepareSettingsSrc, None),
                                  (OpPrepareSettingsDst, None), (OpCopySettingsState, None)] w"
              by simp
            from go(2) show ?thesis
            proof (cases rule: step_sum)
              case (stop err)
              from callv_after(1) [OF stop(1) [unfolded CLICatalogStateGet_def]] stop(2) w6
              show ?thesis by simp
            next
              case (go cliState w7)
              from callv_after(1) [OF go(1) [unfolded CLICatalogStateGet_def]] w6
              have w7: "w7 = after [(OpPrepareMigrationsSrc a, None), (OpPrepareMigrationsDst b, None),
                                    (OpCopyMigrationState a b, None), (OpPrepareSettingsSrc, None),
                                    (OpPrepareSettingsDst, None), (OpCopySettingsState, None),
                                    (OpCatalogGet, None)] w"
                by simp
              from go(2) show ?thesis
              proof (cases rule: step_option)
                case (stop err)
                from call_Some [OF stop(1) [unfolded CLICatalogStateSet_def]] stop(2) w7
                show ?thesis by simp
              next
                case (go w8)
                note c = call_None [OF go(1) [unfolded CLICatalogStateSet_def]]
                from c(2) have "st w8 = (st w7)\<lparr>catalog := cliState\<lparr>IsStateCopyCompleted := True\<rparr>\<rparr>"
                  by auto
                then have cat: "catalog (st w8) = cliState\<lparr>IsStateCopyCompleted := True\<rparr>"
                  by simp
                from go(2) have r: "r = None" and w': "w' = w8"
                  by simp_all
                from c(1) w7
                have "w8 = after [(OpPrepareMigrationsSrc a, None), (OpPrepareMigrationsDst b, None),
                                  (OpCopyMigrationState a b, None), (OpPrepareSettingsSrc, None),
                                  (OpPrepareSettingsDst, None), (OpCopySettingsState, None),
                                  (OpCatalogGet, None),
                                  (OpCatalogSet (cliState\<lparr>IsStateCopyCompleted := True\<rparr>), None)] w"
                  by simp
                then have tr: "trace w w8 =
                    [(OpPrepareMigrationsSrc a, None), (OpPrepareMigrationsDst b, None),
                     (OpCopyMigrationState a b, None), (OpPrepareSettingsSrc, None),
                     (OpPrepareSettingsDst, None), (OpCopySettingsState, None),
                     (OpCatalogGet, None),
                     (OpCatalogSet (cliState\<lparr>IsStateCopyCompleted := True\<rparr>), None)]"
                  by simp
                show ?thesis
                  unfolding r w' tr cat by simp
              qed
            qed
          qed
        qed
      qed
    qed
  qed
qed

lemma callv_Inr:
  assumes "callv env c f w = (Inr v, w')" and "\<And>s. effect c s = Inr s"
  shows "w' = after [(c, None)] w" and "f (st w) = Inr v" and "c \<notin> faults env"
  using callv_after(1) [OF assms] callv_after(3) [OF assms] by simp_all

lemma callv_Inl:
  assumes "callv env c f w = (Inl e, w')" and "\<And>s. effect c s = Inr s"
  shows "w' = after [(c, Some e)] w"
  using callv_after(1) [OF assms] by simp

lemma selectTargetDatabase_trace:
  assumes "selectTargetDatabase opts env w = (r, w')"
  shows "(\<exists>e. r = Inl (Some e) \<and> trace w w' = [(OpGetSources, Some e)])
       \<or> (TargetDatabase opts \<noteq> [] \<and> r = Inr (Sources env, TargetDatabase opts)
            \<and> trace w w' = [(OpGetSources, None)])
       \<or> (TargetDatabase opts = [] \<and> Sources env = [''default'']
            \<and> r = Inr (Sources env, ''default'') \<and> trace w w' = [(OpGetSources, None)])
       \<or> (TargetDatabase opts = [] \<and> Sources env = []
            \<and> r = Inl (Some (Msg ''cannot determine name of database for which current migrations / seed belong to, found 0 connected databases on hasura []''))
            \<and> trace w w' = [(OpGetSources, None)])
       \<or> (TargetDatabase opts = [] \<and> Sources env \<noteq> [] \<and> Sources env \<noteq> [''default'']
            \<and> ((\<exists>e. r = Inl (Some e)
                    \<and> trace w w' = [(OpGetSources, None), (OpSelectPrompt (Sources env), Some e)])
                \<or> (r = Inr (Sources env, SelectAnswer env)
                    \<and> trace w w' = [(OpGetSources, None), (OpSelectPrompt (Sources env), None)])))"
  using assms unfolding selectTargetDatabase_def
proof (cases rule: step_sum)
  case (stop err)
  from callv_Inl [OF stop(1) [unfolded GetSources_def]] stop(2) show ?thesis by simp
next
  case (go sources w1)
  note g = callv_Inr [OF go(1) [unfolded GetSources_def]]
  from g(2) have src: "sources = Sources env" by simp
  from g(1) have w1: "w1 = after [(OpGetSources, None)] w" by simp
  show ?thesis
  proof (cases "TargetDatabase opts = []")
    case False
    with go(2) src w1 show ?thesis by auto
  next
    case t: True
    show ?thesis
    proof (cases "Sources env = [''default'']")
      case True
      with t go(2) src w1 show ?thesis by auto
    next
      case d: False
      then have nd: "\<not> (length sources = 1 \<and> sources ! 0 = ''default'')"
        unfolding src by (cases "Sources env") auto
      show ?thesis
      proof (cases "Sources env = []")
        case True
        with t nd go(2) src w1 show ?thesis by auto
      next
        case False
        with src have pos: "0 < length sources" by simp
        with t nd go(2) have
          "(case GetSelectPrompt env ''what database does this current migrations / seeds belong to?'' sources w1 of
              (Inl err, w2) \<Rightarrow> (Inl (Some err), w2)
            | (Inr targetDatabase, w2) \<Rightarrow> (Inr (sources, targetDatabase), w2)) = (r, w')"
          by (auto split: if_splits)
        then show ?thesis
        proof (cases rule: step_sum)
          case (stop err)
          from callv_Inl [OF stop(1) [unfolded GetSelectPrompt_def]] stop(2) w1 t d False src
          show ?thesis by auto
        next
          case (go v w2)
          note p = callv_Inr [OF go(1) [unfolded GetSelectPrompt_def]]
          from p(1) p(2) go(2) w1 t d False src show ?thesis by auto
        qed
      qed
    qed
  qed
qed

lemma copyingState_cases [consumes 1, case_names skipped failed early copied]:
  assumes "copyingState opts env sources t w = (r, w')"
  obtains (skipped) "sources = []" and "r = Inr ()" and "w' = w"
        | (failed) e where "sources \<noteq> []" and "CopyState env t t w = (Some e, w')" and "r = Inl (Some e)"
        | (early) "sources \<noteq> []" and "CopyState env t t w = (None, w')" and "MoveStateOnly opts"
            and "r = Inl None"
        | (copied) "sources \<noteq> []" and "CopyState env t t w = (None, w')" and "\<not> MoveStateOnly opts"
            and "r = Inr ()"
proof (cases "length sources \<ge> 1")
  case False
  then have "sources = []" by (cases sources) auto
  with assms skipped show ?thesis by (auto simp: copyingState_def)
next
  case True
  then have ne: "sources \<noteq> []" by auto
  from True assms have
    "(case CopyState env t t w of
        (None, w1) \<Rightarrow> if MoveStateOnly opts then (Inl None, w1) else (Inr (), w1)
      | (Some err, w1) \<Rightarrow> (Inl (Some err), w1)) = (r, w')"
    by (simp add: copyingState_def)
  then show ?thesis
  proof (cases rule: step_option)
    case (stop err)
    with ne failed show ?thesis by simp
  next
    case (go w1)
    with ne early copied show ?thesis by (cases "MoveStateOnly opts") auto
  qed
qed

lemma generateNewConfigFile_trace:
  assumes "generateNewConfigFile env w = (r, w')"
  shows "(\<exists>e. r = Inl (Some e) \<and> w' = after [(OpWriteConfig V3, Some e)] w \<and> st w' = st w)
       \<or> (r = Inr () \<and> w' = after [(OpWriteConfig V3, None)] w
           \<and> st w' = (st w)\<lparr>config_version := V3\<rparr>)"
  using assms unfolding generateNewConfigFile_def
proof (cases rule: step_option)
  case (stop err)
  from call_Some [OF stop(1) [unfolded WriteConfig_def]] call_after(3) [OF stop(1) [unfolded WriteConfig_def]] stop(2)
  show ?thesis by simp
next
  case (go w1)
  note c = call_None [OF go(1) [unfolded WriteConfig_def]]
  from c(2) have "st w1 = (st w)\<lparr>config_version := V3\<rparr>" by auto
  with c(1) go(2) show ?thesis by auto
qed

lemma exportMetadataFromServer_trace:
  assumes "exportMetadataFromServer opts env w = (r, w')"
  shows "(\<exists>e. r = Inl (Some e))
       \<or> (r = Inl None
           \<and> trace w w' = [(OpExportMetadata, None),
                            (OpWriteMetadata (MetadataDir opts) (ServerMetadata env), None)])"
  using assms unfolding exportMetadataFromServer_def
proof (cases rule: step_sum)
  case (stop err)
  then show ?thesis by simp
next
  case (go files w1)
  note e = callv_Inr [OF go(1) [unfolded ExportMetadata_def]]
  from e(2) have f: "files = ServerMetadata env" by simp
  from go(2) show ?thesis
  proof (cases rule: step_option)
    case (stop err)
    then show ?thesis by simp
  next
    case (go w2)
    from call_None(1) [OF go(1) [unfolded WriteMetadata_def]] e(1) f go(2) show ?thesis by auto
  qed
qed

lemma getMigrationDirectoryNames_trace:
  assumes "getMigrationDirectoryNames env p w = (r, w')"
  shows "w' = after [(OpReadDir p, errv r)] w"
proof -
  obtain r1 w1 where 1: "ReadDir env p w = (r1, w1)"
    by (cases "ReadDir env p w")
  note a = callv_after(1) [OF 1 [unfolded ReadDir_def]]
  show ?thesis
  proof (cases r1)
    case (Inl e)
    with 1 assms a show ?thesis
      by (auto simp: getMigrationDirectoryNames_def getMatchingFilesAndDirs_def)
  next
    case (Inr dirs)
    with 1 assms have "w' = w1" and "r = matching_loop isHasuraCLIGeneratedMigration dirs []"
      by (simp_all add: getMigrationDirectoryNames_def getMatchingFilesAndDirs_def)
    moreover have "\<exists>migs. matching_loop isHasuraCLIGeneratedMigration dirs [] = Inr migs"
      by (cases "matching_loop isHasuraCLIGeneratedMigration dirs []")
         (auto simp: matching_loop_error)
    ultimately show ?thesis using a Inr by auto
  qed
qed

lemma getSeedFiles_trace:
  assumes "getSeedFiles env p w = (r, w')"
  shows "w' = after [(OpReadDir p, errv r)] w"
proof -
  obtain r1 w1 where 1: "ReadDir env p w = (r1, w1)"
    by (cases "ReadDir env p w")
  note a = callv_after(1) [OF 1 [unfolded ReadDir_def]]
  from 1 assms a show ?thesis
    by (cases r1) (auto simp: getSeedFiles_def)
qed

lemma summary_trace_trans:
  assumes "summary lo hi r1 w w1" and "summary lo' hi' r2 w1 w2"
  shows "trace w w2 = trace w w1 @ trace w1 w2"
  using summary_trace [OF assms(1)] summary_trace [OF assms(2)] by (rule trace_trans)

lemma copyOldMigrations_listing:
  assumes "copyOldMigrations opts env t w = (r, w')"
  shows "(\<exists>out rest. trace w w' = (OpReadDir (MigrationsAbsDirectoryPath opts), out) # rest)
        \<and> (\<forall>v. r = Inr v \<longrightarrow>
           (OpReadDir (MigrationsAbsDirectoryPath opts), None) \<in> set (trace w w')
           \<and> (OpReadDir (SeedsAbsDirectoryPath opts), None) \<in> set (trace w w'))"
  using assms unfolding copyOldMigrations_def Let_def
proof (cases rule: step_sum)
  case (stop err)
  from getMigrationDirectoryNames_trace [OF stop(1)] stop(2) show ?thesis by simp
next
  case (go migs w1)
  from getMigrationDirectoryNames_trace [OF go(1)]
  have w1: "w1 = after [(OpReadDir (MigrationsAbsDirectoryPath opts), None)] w" by simp
  from go(2) show ?thesis
  proof (cases rule: step_sum)
    case (stop err)
    from getSeedFiles_trace [OF stop(1)] stop(2) w1 show ?thesis by simp
  next
    case (go seeds w2)
    from getSeedFiles_trace [OF go(1)] w1
    have w2: "w2 = after [(OpReadDir (MigrationsAbsDirectoryPath opts), None),
                          (OpReadDir (SeedsAbsDirectoryPath opts), None)] w" by simp
    then have t2: "trace w w2 = [(OpReadDir (MigrationsAbsDirectoryPath opts), None),
                          (OpReadDir (SeedsAbsDirectoryPath opts), None)]" by simp
    have s2: "summary 4 4 None w w2"
      unfolding w2 by (simp add: summary_after failed_def)
    from go(2) obtain d1 w3 where m1: "Mkdir env (MigrationsAbsDirectoryPath opts @ [t]) w2 = (d1, w3)"
      and k3: "(case Mkdir env (SeedsAbsDirectoryPath opts @ [t]) w3 of
                 (dropped2, w4) \<Rightarrow>
                   (case copyMigrations env migs (MigrationsAbsDirectoryPath opts)
                           (MigrationsAbsDirectoryPath opts @ [t]) w4 of
                      (None, w5) \<Rightarrow>
                        (case copyFiles env seeds (SeedsAbsDirectoryPath opts)
                                (SeedsAbsDirectoryPath opts @ [t]) w5 of
                           (None, w6) \<Rightarrow> (Inr (migs, seeds), w6)
                         | (Some err, w6) \<Rightarrow>
                             (Inl (Some (Wrap err ''moving seeds to target database directory'')), w6))
                    | (Some err, w5) \<Rightarrow>
                        (Inl (Some (Wrap err ''moving migrations to target database directory'')), w5)))
               = (r, w')"
      by (rule step_any)
    note s3 = summary_then [OF s2 Mkdir_summary [OF m1]]
    from k3 obtain d2 w4 where m2: "Mkdir env (SeedsAbsDirectoryPath opts @ [t]) w3 = (d2, w4)"
      and k4: "(case copyMigrations env migs (MigrationsAbsDirectoryPath opts)
                           (MigrationsAbsDirectoryPath opts @ [t]) w4 of
                      (None, w5) \<Rightarrow>
                        (case copyFiles env seeds (SeedsAbsDirectoryPath opts)
                                (SeedsAbsDirectoryPath opts @ [t]) w5 of
                           (None, w6) \<Rightarrow> (Inr (migs, seeds), w6)
                         | (Some err, w6) \<Rightarrow>
                             (Inl (Some (Wrap err ''moving seeds to target database directory'')), w6))
                    | (Some err, w5) \<Rightarrow>
                        (Inl (Some (Wrap err ''moving migrations to target database directory'')), w5))
               = (r, w')"
      by (rule step_any)
    have s24: "summary 4 4 None w2 w4"
      using Mkdir_summary [OF m1] Mkdir_summary [OF m2] by (rule summary_then)
    have "\<exists>x. summary 4 4 x w4 w'"
      using k4
    proof (cases rule: step_option)
      case (stop err)
      with copyMigrations_summary [OF stop(1)] show ?thesis by blast
    next
      case (go w5)
      note s5 = copyMigrations_summary [OF go(1)]
      from go(2) show ?thesis
      proof (cases rule: step_option)
        case (stop err)
        with copyFiles_summary [OF stop(1)] s5 show ?thesis
          by (blast intro: summary_then)
      next
        case (go w6)
        with copyFiles_summary [OF go(1)] s5 show ?thesis
          by (auto intro: summary_then)
      qed
    qed
    then obtain x where s4': "summary 4 4 x w4 w'" by blast
    have s04: "summary 4 4 None w w4"
      using s2 s24 by (rule summary_then)
    have "trace w w' = trace w w4 @ trace w4 w'"
      using s04 s4' by (rule summary_trace_trans)
    moreover have "trace w w4 = trace w w2 @ trace w2 w4"
      using s2 s24 by (rule summary_trace_trans)
    ultimately show ?thesis
      using t2 by simp
  qed
qed

lemma in_trace_split:
  assumes "summary lo hi r1 w w1" and "summary lo' hi' r2 w1 w2" and "x \<in> set (trace w w2)"
  shows "x \<in> set (trace w w1) \<or> x \<in> set (trace w1 w2)"
  using summary_trace_trans [OF assms(1,2)] assms(3) by auto


lemma copyOldMigrations_Inl: "copyOldMigrations opts env t w = (Inl x, w') \<Longrightarrow> x \<noteq> None"
  unfolding copyOldMigrations_def Let_def
  by (auto split: prod.splits sum.splits option.splits)

lemma generateNewConfigFile_Inl: "generateNewConfigFile env w = (Inl x, w') \<Longrightarrow> x \<noteq> None"
  unfolding generateNewConfigFile_def
  by (auto split: prod.splits sum.splits option.splits)

lemma deleteOldMigrationsAndSeeds_Inl:
  "deleteOldMigrationsAndSeeds opts env migs seeds w = (Inl x, w') \<Longrightarrow> x \<noteq> None"
  unfolding deleteOldMigrationsAndSeeds_def
  by (auto split: prod.splits sum.splits option.splits)

lemma Reorganize_Inl: "Reorganize opts env t w = (Inl x, w') \<Longrightarrow> x \<noteq> None"
  by (cases rule: Reorganize_cases, assumption)
     (auto dest: copyOldMigrations_Inl generateNewConfigFile_Inl deleteOldMigrationsAndSeeds_Inl)

text \<open>
  The reorganization either leaves the config version alone, or it has written version 3
  after a listing and a copy phase in which no call but a \<open>Stat\<close> or a \<open>Mkdir\<close> failed,
  and before every deletion.
\<close>

lemma Reorganize_written:
  assumes "Reorganize opts env t w = (r, w')"
  shows "(\<exists>e. r = Inl (Some e) \<and> config_version (st w') = config_version (st w)
              \<and> (\<forall>x \<in> set (trace w w'). (OpWriteConfig V3, None) \<noteq> x))
       \<or> (config_version (st w') = V3
           \<and> (\<exists>es1 es2. trace w w' = es1 @ (OpWriteConfig V3, None) # es2
                 \<and> (\<forall>x \<in> set es1. \<not> failed x \<and> phase_of (fst x) = 4)
                 \<and> (\<forall>x \<in> set es2. phase_of (fst x) = 6)
                 \<and> (OpReadDir (MigrationsAbsDirectoryPath opts), None) \<in> set es1
                 \<and> (OpReadDir (SeedsAbsDirectoryPath opts), None) \<in> set es1))"
  using assms
proof (cases rule: Reorganize_cases)
  case (copy x)
  note s = copyOldMigrations_summary [OF copy(1)]
  from copyOldMigrations_Inl [OF copy(1)] copy(2) obtain e where "r = Inl (Some e)" by auto
  moreover from summary_config_same [OF s] have "config_version (st w') = config_version (st w)"
    by simp
  moreover have "\<forall>x \<in> set (trace w w'). (OpWriteConfig V3, None) \<noteq> x"
    using summary_range [OF s] by fastforce
  ultimately show ?thesis by blast
next
  case (config migs seeds w1 x)
  note s = copyOldMigrations_summary [OF config(1)]
  from generateNewConfigFile_trace [OF config(2)] config(3)
  obtain e where e: "r = Inl (Some e)" and w': "w' = after [(OpWriteConfig V3, Some e)] w1"
    and st: "st w' = st w1"
    by auto
  from w' have "trace w1 w' = [(OpWriteConfig V3, Some e)]" by simp
  with summary_trace_trans [OF s generateNewConfigFile_summary [OF config(2)]]
  have "trace w w' = trace w w1 @ [(OpWriteConfig V3, Some e)]" by simp
  moreover have "\<forall>x \<in> set (trace w w1). (OpWriteConfig V3, None) \<noteq> x"
    using summary_range [OF s] by fastforce
  moreover from summary_config_same [OF s] st
  have "config_version (st w') = config_version (st w)" by simp
  ultimately show ?thesis using e by auto
next
  case (delete migs seeds w1 w2)
  note s = copyOldMigrations_summary [OF delete(1)]
  note g = generateNewConfigFile_summary [OF delete(2)]
  note d = deleteOldMigrationsAndSeeds_summary [OF delete(3)]
  from s have s1: "summary 4 4 None w w1" by simp
  from g have s2: "summary 5 5 None w1 w2" by simp
  have s12: "summary 4 5 None w w2"
    using s1 s2 by (rule summary_seq) simp_all
  from generateNewConfigFile_trace [OF delete(2)]
  have w2: "w2 = after [(OpWriteConfig V3, None)] w1" and st2: "config_version (st w2) = V3"
    by auto
  from w2 have "trace w1 w2 = [(OpWriteConfig V3, None)]" by simp
  with summary_trace_trans [OF s1 s2] summary_trace_trans [OF s12 d]
  have "trace w w' = trace w w1 @ (OpWriteConfig V3, None) # trace w2 w'" by simp
  moreover have "\<forall>x \<in> set (trace w w1). \<not> failed x \<and> phase_of (fst x) = 4"
    using summary_range [OF s1] summary_clean [OF s1] by fastforce
  moreover have "\<forall>x \<in> set (trace w2 w'). phase_of (fst x) = 6"
    using summary_range [OF d] by fastforce
  moreover from copyOldMigrations_listing [OF delete(1)]
  have "(OpReadDir (MigrationsAbsDirectoryPath opts), None) \<in> set (trace w w1)"
    and "(OpReadDir (SeedsAbsDirectoryPath opts), None) \<in> set (trace w w1)"
    by simp_all
  moreover from summary_config_same [OF d] st2 have "config_version (st w') = V3" by simp
  ultimately show ?thesis by blast
qed

lemma Reorganize_first:
  assumes "Reorganize opts env t w = (r, w')"
  shows "\<exists>out rest. trace w w' = (OpReadDir (MigrationsAbsDirectoryPath opts), out) # rest"
  using assms
proof (cases rule: Reorganize_cases)
  case (copy x)
  from copyOldMigrations_listing [OF copy(1)] show ?thesis by simp
next
  case (config migs seeds w1 x)
  from copyOldMigrations_listing [OF config(1)]
    summary_trace_trans [OF copyOldMigrations_summary [OF config(1)]
      generateNewConfigFile_summary [OF config(2)]]
  show ?thesis by auto
next
  case (delete migs seeds w1 w2)
  note s = copyOldMigrations_summary [OF delete(1)]
  note g = generateNewConfigFile_summary [OF delete(2)]
  note d = deleteOldMigrationsAndSeeds_summary [OF delete(3)]
  from s have s1: "summary 4 4 None w w1" by simp
  from g have s2: "summary 5 5 None w1 w2" by simp
  have s12: "summary 4 5 None w w2"
    using s1 s2 by (rule summary_seq) simp_all
  from copyOldMigrations_listing [OF delete(1)]
    summary_trace_trans [OF s1 s2] summary_trace_trans [OF s12 d]
  show ?thesis by auto
qed

lemma CopyState_first:
  "CopyState env a b w = (r, w') \<Longrightarrow> \<exists>out rest. trace w w' = (OpPrepareMigrationsSrc a, out) # rest"
  by (drule CopyState_trace) blast

text \<open>
  A run that has read the connected sources: the calls before the choice of the target,
  the calls of the choice, and the calls after it.
\<close>

lemma run_around_select:
  assumes "UpdateProjectV3 opts env w = (r, w')" and "calls w = []"
    and "(OpGetSources, None) \<in> set (calls w')"
  shows "\<exists>w2 w3 x A B.
           selectTargetDatabase opts env w2 = (x, w3) \<and> calls w' = A @ trace w2 w3 @ B
           \<and> (\<forall>y \<in> set A. phase_of (fst y) \<le> 1) \<and> (\<forall>y \<in> set B. 3 \<le> phase_of (fst y))
           \<and> ((\<exists>e. x = Inl e \<and> r = e \<and> B = [])
               \<or> (\<exists>sources t. x = Inr (sources, t)
                    \<and> ((sources \<noteq> [] \<and> (\<exists>out rest. B = (OpPrepareMigrationsSrc t, out) # rest))
                        \<or> (sources = [] \<and> (\<forall>y \<in> set B. 4 \<le> phase_of (fst y))
                            \<and> (\<exists>out rest. B = (OpReadDir (MigrationsAbsDirectoryPath opts), out) # rest)
                            \<and> (r = None \<longrightarrow> config_version (st w') = V3
                                 \<and> (OpWriteMetadata (MetadataDir opts) (ServerMetadata env), None) \<in> set B)))))"
proof -
  have tr: "trace w w' = calls w'"
    using assms(2) by (rule trace_from_empty)
  let ?g = "(OpGetSources, None :: error option)"
  have g: "?g \<in> set (trace w w')"
    using assms(3) tr by simp
  from assms(1) show ?thesis
  proof (cases rule: UpdateProjectV3_cases)
    case pre
    from summary_range [OF preChecks_summary [OF pre] g] show ?thesis by simp
  next
    case (confirm w1)
    from in_trace_split [OF prefix1 [OF confirm(1)] confirmContinue_summary [OF confirm(2)] g]
      summary_range [OF prefix1 [OF confirm(1)], of ?g]
      summary_range [OF confirmContinue_summary [OF confirm(2)], of ?g]
    show ?thesis by auto
  next
    case (select w1 w2)
    note p = prefix2 [OF select(1,2)]
    note s = selectTargetDatabase_summary [OF select(3)]
    have "calls w' = trace w w2 @ trace w2 w' @ []"
      using summary_trace_trans [OF p s] tr by simp
    moreover have "\<forall>y \<in> set (trace w w2). phase_of (fst y) \<le> 1"
      using summary_range [OF p] by simp
    ultimately show ?thesis
      using select(3) by (intro exI conjI) (assumption | simp)+
  next
    case (state w1 w2 w3 sources t)
    note p = prefix2 [OF state(1,2)]
    note s = selectTargetDatabase_summary [OF state(3)]
    note p3 = prefix3 [OF state(1,2,3)]
    note c = copyingState_summary [OF state(4)]
    have "calls w' = trace w w2 @ trace w2 w3 @ trace w3 w'"
      using summary_trace_trans [OF p s] summary_trace_trans [OF p3 c] tr by simp
    moreover have "\<forall>y \<in> set (trace w w2). phase_of (fst y) \<le> 1"
      using summary_range [OF p] by simp
    moreover have "\<forall>y \<in> set (trace w3 w'). 3 \<le> phase_of (fst y)"
      using summary_range [OF c] by simp
    moreover from state(4)
    have "sources \<noteq> [] \<and> (\<exists>out rest. trace w3 w' = (OpPrepareMigrationsSrc t, out) # rest)"
      by (cases rule: copyingState_cases) (auto dest: CopyState_first)
    ultimately show ?thesis
      using state(3) by (intro exI conjI) (assumption | simp)+
  next
    case (reorg w1 w2 w3 w4 sources t)
    note p = prefix2 [OF reorg(1,2)]
    note s = selectTargetDatabase_summary [OF reorg(3)]
    note p3 = prefix3 [OF reorg(1,2,3)]
    note c = copyingState_summary [OF reorg(4)]
    note q = Reorganize_summary [OF reorg(5)]
    from c have c': "summary 3 3 None w3 w4" by simp
    have cq: "summary 3 6 (returned (Inl r :: error option + unit)) w3 w'"
      using c' q by (rule summary_seq) simp_all
    have "calls w' = trace w w2 @ trace w2 w3 @ trace w3 w'"
      using summary_trace_trans [OF p s] summary_trace_trans [OF p3 cq] tr by simp
    moreover have "\<forall>y \<in> set (trace w w2). phase_of (fst y) \<le> 1"
      using summary_range [OF p] by simp
    moreover have "\<forall>y \<in> set (trace w3 w'). 3 \<le> phase_of (fst y)"
      using summary_range [OF cq] by simp
    moreover have t34: "trace w3 w' = trace w3 w4 @ trace w4 w'"
      using c' q by (rule summary_trace_trans)
    have "(sources \<noteq> [] \<and> (\<exists>out rest. trace w3 w' = (OpPrepareMigrationsSrc t, out) # rest))
          \<or> (sources = [] \<and> (\<forall>y \<in> set (trace w3 w'). 4 \<le> phase_of (fst y))
              \<and> (\<exists>out rest. trace w3 w' = (OpReadDir (MigrationsAbsDirectoryPath opts), out) # rest)
              \<and> r \<noteq> None)"
      using reorg(4)
    proof (cases rule: copyingState_cases)
      case skipped
      with t34 summary_range [OF q] Reorganize_first [OF reorg(5)] Reorganize_Inl [OF reorg(5)]
      show ?thesis by auto
    next
      case copied
      with t34 CopyState_first [OF copied(2)] show ?thesis by auto
    qed simp_all
    ultimately show ?thesis
      using reorg(3) by (intro exI conjI) (assumption | auto)+
  next
    case (export w1 w2 w3 w4 w5 sources t y)
    note p = prefix2 [OF export(1,2)]
    note s = selectTargetDatabase_summary [OF export(3)]
    note p3 = prefix3 [OF export(1,2,3)]
    note c = copyingState_summary [OF export(4)]
    note q = Reorganize_summary [OF export(5)]
    note e = exportMetadataFromServer_summary [OF export(6)]
    from c have c': "summary 3 3 None w3 w4" by simp
    from q have q': "summary 4 6 None w4 w5" by simp
    have qe: "summary 4 7 (returned y) w4 w'"
      using q' e by (rule summary_seq) simp_all
    have cqe: "summary 3 7 (returned y) w3 w'"
      using c' qe by (rule summary_seq) simp_all
    have "calls w' = trace w w2 @ trace w2 w3 @ trace w3 w'"
      using summary_trace_trans [OF p s] summary_trace_trans [OF p3 cqe] tr by simp
    moreover have "\<forall>y \<in> set (trace w w2). phase_of (fst y) \<le> 1"
      using summary_range [OF p] by simp
    moreover have "\<forall>y \<in> set (trace w3 w'). 3 \<le> phase_of (fst y)"
      using summary_range [OF cqe] by simp
    moreover have t34: "trace w3 w' = trace w3 w4 @ trace w4 w'"
      using c' qe by (rule summary_trace_trans)
    have t45: "trace w4 w' = trace w4 w5 @ trace w5 w'"
      using q' e by (rule summary_trace_trans)
    have fin: "r = None \<longrightarrow> config_version (st w') = V3
               \<and> (OpWriteMetadata (MetadataDir opts) (ServerMetadata env), None) \<in> set (trace w4 w')"
    proof
      assume "r = None"
      with export(7) exportMetadataFromServer_trace [OF export(6)]
      have "(OpWriteMetadata (MetadataDir opts) (ServerMetadata env), None) \<in> set (trace w5 w')"
        by auto
      moreover from Reorganize_written [OF export(5)] have "config_version (st w5) = V3"
        by auto
      with summary_config_same [OF e] have "config_version (st w') = V3" by simp
      ultimately show "config_version (st w') = V3
               \<and> (OpWriteMetadata (MetadataDir opts) (ServerMetadata env), None) \<in> set (trace w4 w')"
        using t45 by simp
    qed
    have "(sources \<noteq> [] \<and> (\<exists>out rest. trace w3 w' = (OpPrepareMigrationsSrc t, out) # rest))
          \<or> (sources = [] \<and> (\<forall>y \<in> set (trace w3 w'). 4 \<le> phase_of (fst y))
              \<and> (\<exists>out rest. trace w3 w' = (OpReadDir (MigrationsAbsDirectoryPath opts), out) # rest)
              \<and> (r = None \<longrightarrow> config_version (st w') = V3
                   \<and> (OpWriteMetadata (MetadataDir opts) (ServerMetadata env), None) \<in> set (trace w3 w')))"
      using export(4)
    proof (cases rule: copyingState_cases)
      case skipped
      with t34 t45 summary_range [OF qe] Reorganize_first [OF export(5)] fin
      show ?thesis by auto
    next
      case copied
      with t34 CopyState_first [OF copied(2)] show ?thesis by auto
    qed simp_all
    ultimately show ?thesis
      using export(3) by (intro exI conjI) (assumption | auto)+
  qed
qed

lemma is_select_phase: "is_select c \<Longrightarrow> phase_of c = 2"
  by (cases c) simp_all

lemma no_select_low: "\<forall>y \<in> set A. phase_of (fst y) \<le> 1 \<Longrightarrow> filter (\<lambda>x. is_select (fst x)) A = []"
  by (fastforce simp: filter_empty_conv dest: is_select_phase)

lemma no_select_high: "\<forall>y \<in> set B. 3 \<le> phase_of (fst y) \<Longrightarrow> filter (\<lambda>x. is_select (fst x)) B = []"
  by (fastforce simp: filter_empty_conv dest: is_select_phase)

text \<open>
  The check of lines 326 to 358 for a project at config V2 on a server with metadata V3:
  no source is an error, the one source \<open>default\<close> needs no update, anything else asks for
  the update.
\<close>

lemma CheckIfUpdateToConfigV3IsRequired_sources:
  assumes "config_version (st w) = V2" and "HasMetadataV3 env" and "OpGetSources \<notin> faults env"
  shows "fst (CheckIfUpdateToConfigV3IsRequired env w) =
           (if Sources env = [] then Some (Msg ''no connected databases found on hasura'')
            else if Sources env = [''default''] then None
            else Some (Msg ''update to config V3''))"
proof (cases "Sources env")
  case Nil
  with assms show ?thesis
    by (simp add: CheckIfUpdateToConfigV3IsRequired_def GetSources_def callv_def)
next
  case (Cons a as)
  with assms show ?thesis
    by (cases as) (auto simp: CheckIfUpdateToConfigV3IsRequired_def GetSources_def callv_def)
qed


section \<open>The claims\<close>

text \<open>
  Claim C1. Whenever a copy made during the reorganization fails, whatever the project tree
  and whatever made the copy fail, \<open>UpdateProjectV3\<close> returns an error, the failed copy
  is the last call it makes, it has made no \<open>RemoveAll\<close> call, and every path of the
  original tree (so every matched migration and every seed file) still exists.
\<close>

theorem copy_failure_aborts_before_deletion:
  assumes "UpdateProjectV3 opts env w = (r, w')" and "calls w = []"
    and "(c, Some e) \<in> set (calls w')" and "is_copy c"
  shows "r \<noteq> None \<and> last (calls w') = (c, Some e)
         \<and> (\<forall>x \<in> set (calls w'). \<not> is_remove (fst x))
         \<and> (\<forall>p. lookup (fs (st w)) p \<noteq> None \<longrightarrow> lookup (fs (st w')) p \<noteq> None)"
proof -
  have s: "summary 0 7 r w w'"
    using assms(1) by (rule UpdateProjectV3_summary)
  have tr: "trace w w' = calls w'"
    using assms(2) by (rule trace_from_empty)
  have f: "failed (c, Some e)"
    using assms(4) by (cases c) (simp_all add: failed_def)
  have ph: "phase_of c = 4"
    using assms(4) by (cases c) simp_all
  from summary_failed_last [OF s _ f] assms(3) tr
  have l: "last (calls w') = (c, Some e)" and r: "\<exists>e'. r = Some e'"
    and le: "\<forall>y \<in> set (calls w'). phase_of (fst y) \<le> 4"
    using ph by auto
  have nr: "\<forall>x \<in> set (calls w'). \<not> is_remove (fst x)"
  proof
    fix x assume "x \<in> set (calls w')"
    with le have "phase_of (fst x) \<le> 4" by simp
    then show "\<not> is_remove (fst x)" by (cases "fst x") simp_all
  qed
  from s tr have "st w' = replay (calls w') (st w)"
    by (metis st_after summary_def)
  moreover from le have "\<forall>x \<in> set (calls w'). phase_of (fst x) \<le> 5"
    by fastforce
  ultimately have "\<forall>p. lookup (fs (st w)) p \<noteq> None \<longrightarrow> lookup (fs (st w')) p \<noteq> None"
    using replay_keeps by metis
  with l r nr show ?thesis by blast
qed


theorem copy_failure_aborts_before_deletion_witness:
  "fst (UpdateProjectV3 ex_opts ex_env_copy_fault ex_world) \<noteq> None
   \<and> last (calls (snd (UpdateProjectV3 ex_opts ex_env_copy_fault ex_world))) =
       (OpCopyDir [''m'', ''1610000000000_init''] [''m'', ''default'', ''1610000000000_init''],
        Some (Fault (OpCopyDir [''m'', ''1610000000000_init'']
                       [''m'', ''default'', ''1610000000000_init''])))
   \<and> filter (\<lambda>x. is_remove (fst x)) (calls (snd (UpdateProjectV3 ex_opts ex_env_copy_fault ex_world))) = []
   \<and> lookup (fs (st (snd (UpdateProjectV3 ex_opts ex_env_copy_fault ex_world))))
        [''m'', ''1610000000000_init''] \<noteq> None
   \<and> lookup (fs (st (snd (UpdateProjectV3 ex_opts ex_env_copy_fault ex_world))))
        [''s'', ''seed1.sql''] \<noteq> None"
proof -
  let ?run = "UpdateProjectV3 ex_opts ex_env_copy_fault ex_world"
  let ?c = "OpCopyDir [''m'', ''1610000000000_init''] [''m'', ''default'', ''1610000000000_init'']"
  have 1: "?run = (fst ?run, snd ?run)"
    by (rule surjective_run)
  have 2: "calls ex_world = []"
    by (simp add: ex_world_def)
  have 3: "(?c, Some (Fault ?c)) \<in> set (calls (snd ?run))"
    by (simp add: ex_copy_fault_calls)
  have 4: "is_copy ?c"
    by simp
  have 5: "lookup (fs (st ex_world)) [''m'', ''1610000000000_init''] \<noteq> None"
    and 6: "lookup (fs (st ex_world)) [''s'', ''seed1.sql''] \<noteq> None"
    by (simp_all add: ex_world_def)
  from copy_failure_aborts_before_deletion [OF 1 2 3 4] 5 6 show ?thesis
    by (simp add: filter_empty_conv)
qed

text \<open>
  Claim C4, as amended. Whenever a call other than the \<open>Stat\<close> of \<open>copyMigrations\<close> and the
  two \<open>Mkdir\<close> calls fails, it is the last call \<open>UpdateProjectV3\<close> makes, and
  \<open>UpdateProjectV3\<close> returns the error of that call in the way \<open>returned_as\<close> lists:
  under the label of its step for the consistency check, the two listings, the copies and
  the removal of the original migrations and seeds; as the text of a new labelled error
  for the reading and writing of the catalog state; and as it is for the prompts,
  \<open>GetSources\<close>, the other store calls of \<open>CopyState\<close>, \<open>WriteConfig\<close>, the removal of
  the two old metadata files, and the export and writing of the metadata.
\<close>

theorem failed_call_ends_run:
  assumes "UpdateProjectV3 opts env w = (r, w')" and "calls w = []"
    and "(c, Some e) \<in> set (calls w')" and "\<not> passed_over c"
  shows "last (calls w') = (c, Some e) \<and> (\<exists>e'. r = Some e' \<and> returned_as opts c e e')"
proof -
  have s: "summary 0 7 r w w'"
    using assms(1) by (rule UpdateProjectV3_summary)
  have tr: "trace w w' = calls w'"
    using assms(2) by (rule trace_from_empty)
  have f: "failed (c, Some e)"
    using assms(4) by (simp add: failed_def)
  from summary_failed_last(1) [OF s _ f] assms(3) tr
  have l: "last (calls w') = (c, Some e)" by simp
  from assms(3) have ne: "calls w' \<noteq> []" by auto
  from UpdateProjectV3_blame [OF assms(1)] tr l ne f
  have "\<exists>e'. r = Some e' \<and> returned_as opts c e e'"
    by (auto simp: blame_def)
  with l show ?thesis by simp
qed

theorem failed_call_ends_run_witness:
  "last (calls (snd (UpdateProjectV3 ex_opts ex_env_copy_fault ex_world))) =
     (OpCopyDir [''m'', ''1610000000000_init''] [''m'', ''default'', ''1610000000000_init''],
      Some (Fault (OpCopyDir [''m'', ''1610000000000_init'']
                     [''m'', ''default'', ''1610000000000_init''])))
   \<and> fst (UpdateProjectV3 ex_opts ex_env_copy_fault ex_world) =
       Some (Wrap (Wrap (Fault (OpCopyDir [''m'', ''1610000000000_init'']
                                  [''m'', ''default'', ''1610000000000_init'']))
                     ''moving 1610000000000_init to /m/default'')
               ''moving migrations to target database directory'')"
proof -
  let ?run = "UpdateProjectV3 ex_opts ex_env_copy_fault ex_world"
  let ?c = "OpCopyDir [''m'', ''1610000000000_init''] [''m'', ''default'', ''1610000000000_init'']"
  have 1: "?run = (fst ?run, snd ?run)"
    by (rule surjective_run)
  have 2: "calls ex_world = []"
    by (simp add: ex_world_def)
  have 3: "(?c, Some (Fault ?c)) \<in> set (calls (snd ?run))"
    by (simp add: ex_copy_fault_calls)
  have 4: "\<not> passed_over ?c"
    by simp
  from failed_call_ends_run [OF 1 2 3 4] show ?thesis
    by (auto simp: ex_opts_def)
qed

text \<open>
  The claim as stated fails: when the table-backed store cannot be prepared, the error of
  \<open>CopyState\<close> is returned as it is, with no label around it.
\<close>

theorem store_error_returned_unwrapped:
  "fst (UpdateProjectV3 ex_opts ex_env_store_fault ex_world) = Some StoreUnavailable
   \<and> \<not> is_wrapped StoreUnavailable
   \<and> calls (snd (UpdateProjectV3 ex_opts ex_env_store_fault ex_world)) =
       [(OpGetInconsistentMetadata, None), (OpGetSources, None),
        (OpPrepareMigrationsSrc ''default'', Some StoreUnavailable)]"
  by (simp add: ex_env_store_fault_def ex_defs script_defs call_defs)




text \<open>
  Claim C6. In a run that gets as far as reading the connected sources, with no target
  name given: with no source the run stops there with the error about 0 connected
  databases, and nothing is asked; with the one source \<open>default\<close> nothing is asked and the
  state copy is started for \<open>default\<close>; in every other case the select prompt is called
  exactly once, with the sources as options, and when it answers the state copy is started
  for the answer.
\<close>

theorem target_selection:
  assumes "UpdateProjectV3 opts env w = (r, w')" and "calls w = []"
    and "TargetDatabase opts = []" and "(OpGetSources, None) \<in> set (calls w')"
  shows "(Sources env = [] \<longrightarrow>
            r = Some (Msg ''cannot determine name of database for which current migrations / seed belong to, found 0 connected databases on hasura []'')
            \<and> last (calls w') = (OpGetSources, None)
            \<and> filter (\<lambda>x. is_select (fst x)) (calls w') = [])
       \<and> (Sources env = [''default''] \<longrightarrow>
            filter (\<lambda>x. is_select (fst x)) (calls w') = []
            \<and> (\<exists>out. (OpPrepareMigrationsSrc ''default'', out) \<in> set (calls w')))
       \<and> (Sources env \<noteq> [] \<and> Sources env \<noteq> [''default''] \<longrightarrow>
            (\<exists>out. filter (\<lambda>x. is_select (fst x)) (calls w') = [(OpSelectPrompt (Sources env), out)]
                 \<and> (out = None \<longrightarrow>
                       (\<exists>out'. (OpPrepareMigrationsSrc (SelectAnswer env), out') \<in> set (calls w')))))"
proof -
  from run_around_select [OF assms(1,2,4)] obtain w2 w3 x A B
    where sel: "selectTargetDatabase opts env w2 = (x, w3)"
      and calls: "calls w' = A @ trace w2 w3 @ B"
      and A: "\<forall>y \<in> set A. phase_of (fst y) \<le> 1" and B: "\<forall>y \<in> set B. 3 \<le> phase_of (fst y)"
      and rest: "(\<exists>e. x = Inl e \<and> r = e \<and> B = [])
                 \<or> (\<exists>sources t. x = Inr (sources, t) \<and> sources \<noteq> []
                       \<and> (\<exists>out rest. B = (OpPrepareMigrationsSrc t, out) # rest))
                 \<or> (\<exists>t. x = Inr ([], t))"
    by blast
  note fA = no_select_low [OF A] and fB = no_select_high [OF B]
  have gA: "(OpGetSources, None) \<notin> set A" using A by fastforce
  have gB: "(OpGetSources, None) \<notin> set B" using B by fastforce
  from assms(4) calls gA gB have g: "(OpGetSources, None) \<in> set (trace w2 w3)" by auto
  from selectTargetDatabase_trace [OF sel] assms(3) g
  consider
      (default) "Sources env = [''default'']" and "x = Inr (Sources env, ''default'')"
        and "trace w2 w3 = [(OpGetSources, None)]"
    | (none) "Sources env = []"
        and "x = Inl (Some (Msg ''cannot determine name of database for which current migrations / seed belong to, found 0 connected databases on hasura []''))"
        and "trace w2 w3 = [(OpGetSources, None)]"
    | (refused) e where "Sources env \<noteq> []" and "Sources env \<noteq> [''default'']"
        and "x = Inl (Some e)"
        and "trace w2 w3 = [(OpGetSources, None), (OpSelectPrompt (Sources env), Some e)]"
    | (answered) "Sources env \<noteq> []" and "Sources env \<noteq> [''default'']"
        and "x = Inr (Sources env, SelectAnswer env)"
        and "trace w2 w3 = [(OpGetSources, None), (OpSelectPrompt (Sources env), None)]"
    by auto
  then show ?thesis
  proof cases
    case default
    with rest calls fA fB show ?thesis by auto
  next
    case none
    with rest calls fA fB show ?thesis by auto
  next
    case (refused e)
    with rest calls fA fB show ?thesis by auto
  next
    case answered
    with rest calls fA fB show ?thesis by auto
  qed
qed

lemma ex_no_sources_calls:
  "calls (snd (UpdateProjectV3 ex_opts ex_env_no_sources ex_world)) =
     [(OpGetInconsistentMetadata, None), (OpGetSources, None)]"
  by (simp add: ex_env_no_sources_def ex_defs script_defs call_defs)

lemma ex_default_calls:
  "calls (snd (UpdateProjectV3 ex_opts ex_env_store_fault ex_world)) =
     [(OpGetInconsistentMetadata, None), (OpGetSources, None),
      (OpPrepareMigrationsSrc ''default'', Some StoreUnavailable)]"
  by (simp add: ex_env_store_fault_def ex_defs script_defs call_defs)

lemma ex_two_sources_calls:
  "calls (snd (UpdateProjectV3 ex_opts_state_only ex_env_two_sources ex_world)) =
     [(OpGetInconsistentMetadata, None), (OpGetSources, None),
      (OpSelectPrompt [''a'', ''b''], None),
      (OpPrepareMigrationsSrc ''b'', None),
      (OpPrepareMigrationsDst ''b'', None),
      (OpCopyMigrationState ''b'' ''b'', None),
      (OpPrepareSettingsSrc, None), (OpPrepareSettingsDst, None),
      (OpCopySettingsState, None), (OpCatalogGet, None),
      (OpCatalogSet \<lparr>Migrations = [(''b'', [(1610000000000, False)])],
                     Settings = [(''migration_mode'', ''true'')],
                     IsStateCopyCompleted = True\<rparr>, None)]"
  by (simp add: ex_opts_state_only_def ex_env_two_sources_def ex_defs script_defs call_defs)

theorem target_selection_witness:
  "(fst (UpdateProjectV3 ex_opts ex_env_no_sources ex_world) =
      Some (Msg ''cannot determine name of database for which current migrations / seed belong to, found 0 connected databases on hasura []'')
    \<and> filter (\<lambda>x. is_select (fst x)) (calls (snd (UpdateProjectV3 ex_opts ex_env_no_sources ex_world))) = [])
   \<and> (filter (\<lambda>x. is_select (fst x)) (calls (snd (UpdateProjectV3 ex_opts ex_env_store_fault ex_world))) = []
      \<and> (\<exists>out. (OpPrepareMigrationsSrc ''default'', out)
                 \<in> set (calls (snd (UpdateProjectV3 ex_opts ex_env_store_fault ex_world)))))
   \<and> (\<exists>out. filter (\<lambda>x. is_select (fst x))
               (calls (snd (UpdateProjectV3 ex_opts_state_only ex_env_two_sources ex_world))) =
             [(OpSelectPrompt [''a'', ''b''], out)])"
proof -
  let ?run1 = "UpdateProjectV3 ex_opts ex_env_no_sources ex_world"
  let ?run2 = "UpdateProjectV3 ex_opts ex_env_store_fault ex_world"
  let ?run3 = "UpdateProjectV3 ex_opts_state_only ex_env_two_sources ex_world"
  have w: "calls ex_world = []"
    by (simp add: ex_world_def)
  have t: "TargetDatabase ex_opts = []" "TargetDatabase ex_opts_state_only = []"
    by (simp_all add: ex_opts_def ex_opts_state_only_def)
  have g1: "(OpGetSources, None) \<in> set (calls (snd ?run1))"
    by (simp add: ex_no_sources_calls)
  have g2: "(OpGetSources, None) \<in> set (calls (snd ?run2))"
    by (simp add: ex_default_calls)
  have g3: "(OpGetSources, None) \<in> set (calls (snd ?run3))"
    by (simp add: ex_two_sources_calls)
  have s1: "Sources ex_env_no_sources = []"
    and s2: "Sources ex_env_store_fault = [''default'']"
    and s3: "Sources ex_env_two_sources = [''a'', ''b'']"
    by (simp_all add: ex_env_no_sources_def ex_env_store_fault_def ex_env_two_sources_def ex_env_def)
  from target_selection [OF surjective_run w t(1) g1] s1
  have 1: "fst ?run1 =
      Some (Msg ''cannot determine name of database for which current migrations / seed belong to, found 0 connected databases on hasura []'')
    \<and> filter (\<lambda>x. is_select (fst x)) (calls (snd ?run1)) = []"
    by simp
  from target_selection [OF surjective_run w t(1) g2] s2
  have 2: "filter (\<lambda>x. is_select (fst x)) (calls (snd ?run2)) = []
      \<and> (\<exists>out. (OpPrepareMigrationsSrc ''default'', out) \<in> set (calls (snd ?run2)))"
    by simp
  from target_selection [OF surjective_run w t(2) g3] s3
  have 3: "\<exists>out. filter (\<lambda>x. is_select (fst x)) (calls (snd ?run3)) = [(OpSelectPrompt [''a'', ''b''], out)]"
    by auto
  from 1 2 3 show ?thesis by blast
qed





end
